theory Spec2Isabelle
  imports Main "HOL-Library.Word" "HOL-Library.Signed_Division"
begin

section \<open>The driver of the wave-function-collapse engine (run\_wfc.cpp)\<close>

text \<open>
  The file under verification is the driver \<^verbatim>\<open>run_wfc.cpp\<close>: the seed increment, the two
  front-ends \<^verbatim>\<open>read_overlapping_instance\<close> and \<^verbatim>\<open>read_simpletiled_instance\<close> with their
  sample and retry loops, the symmetry-name parser and the dispatcher \<^verbatim>\<open>run_wfc_cpp\<close>.

  Conventions of the embedding.
  \<^item> \<^verbatim>\<open>unsigned\<close> is a 32-bit word; \<^verbatim>\<open>seed + 1\<close> wraps.
  \<^item> A C++ \<^verbatim>\<open>throw\<close> is the value \<open>Inl (Thrown msg)\<close>. An exception that reaches the
    boundary of a function declared \<^verbatim>\<open>noexcept\<close> calls \<^verbatim>\<open>std::terminate\<close>: the value
    \<open>Inl Terminated\<close>, which no caller can catch.
  \<^item> What is written to \<^verbatim>\<open>cout\<close> is a list of inserted items.
  \<^item> Every construction and run of an engine instance is recorded as an event
    (sample index, try index, seed, result of the run), in program order.
  \<^item> The loop counters \<^verbatim>\<open>i\<close> and \<^verbatim>\<open>test\<close> are natural numbers: each is compared with a
    32-bit bound before it is incremented, so neither can wrap.
\<close>

subsection \<open>Data\<close>

type_synonym u32 = "32 word"

text \<open>\<^verbatim>\<open>Array2D<T>\<close>: the fields the driver reads and writes.\<close>

record 'c Array2D =
  arr_height :: u32
  arr_width :: u32
  arr_data :: "'c list"

text \<open>\<^verbatim>\<open>Array2D<Color>(0, 0)\<close>: no rows, no columns, an empty data vector.\<close>

definition Array2D_0_0 :: "'c Array2D" where
  "Array2D_0_0 = \<lparr>arr_height = 0, arr_width = 0, arr_data = []\<rparr>"

declare Array2D_0_0_def [code_unfold]

datatype Symmetry =
  Symmetry_X | Symmetry_T | Symmetry_I | Symmetry_L | Symmetry_backslash | Symmetry_P

datatype error = Thrown string | Terminated

text \<open>\<^verbatim>\<open>PyTile\<close> (name, tile, size, symmetry, weight); the weight type is left open.\<close>

record ('c, 'w) PyTile =
  pt_name :: string
  pt_tile :: "'c list"
  pt_size :: u32
  pt_symmetry :: string
  pt_weight :: 'w

text \<open>The arguments of the constructor \<^verbatim>\<open>Tile<Color>(image, symmetry, weight)\<close>.\<close>

record ('c, 'w) Tile =
  tile_image :: "'c Array2D"
  tile_symmetry :: Symmetry
  tile_weight :: 'w

text \<open>
  \<^verbatim>\<open>Neighbor\<close> (left, left\_or, right, right\_or). An orientation is read through a
  \<^verbatim>\<open>const int &\<close> and stored in a tuple of \<^verbatim>\<open>unsigned\<close>: both conversions keep the 32-bit
  pattern, so an orientation is a 32-bit word throughout.
\<close>

record Neighbor =
  left :: string
  left_or :: u32
  right :: string
  right_or :: u32

text \<open>
  \<^verbatim>\<open>OverlappingWFCOptions\<close>, in the order of the initialiser at line 79:
  periodic\_input, periodic\_output, height, width, symmetry, ground, N.
\<close>

datatype OverlappingWFCOptions =
  OverlappingWFCOptions bool bool u32 u32 u32 bool u32

text \<open>
  The engines are declared in headers outside this file. The driver constructs an
  instance from its arguments and a seed and calls \<^verbatim>\<open>run()\<close> once; each engine is a
  parameter of the model, a function from the constructor's arguments to the returned
  \<^verbatim>\<open>Array2D\<close>.
\<close>

type_synonym 'c OverlappingWFC = "'c Array2D \<Rightarrow> OverlappingWFCOptions \<Rightarrow> u32 \<Rightarrow> 'c Array2D"

type_synonym ('c, 'w) TilingWFC =
  "('c, 'w) Tile list \<Rightarrow> (nat \<times> u32 \<times> nat \<times> u32) list \<Rightarrow> u32 \<Rightarrow> u32 \<Rightarrow> bool \<Rightarrow> u32 \<Rightarrow> 'c Array2D"

datatype out_item = Text string | Number int | Endl

record 'c try_event =
  ev_sample :: nat
  ev_test :: nat
  ev_seed :: u32
  ev_result :: "'c Array2D"

text \<open>The variables the two loops change, with the output written and the tries made.\<close>

record 'c loop_state =
  cur_seed :: u32
  result :: "'c Array2D"
  results_vec :: "'c list"
  cout :: "out_item list"
  tries :: "'c try_event list"

text \<open>What one call leaves behind: the output written, the tries made, the outcome.\<close>

record 'c run =
  r_cout :: "out_item list"
  r_tries :: "'c try_event list"
  r_outcome :: "error + 'c list"

subsection \<open>The seed\<close>

text \<open>\<^verbatim>\<open>numeric_limits<unsigned>::max()\<close>\<close>

definition unsigned_max :: u32 where
  "unsigned_max = 0xFFFFFFFF"

definition increment_seed :: "u32 \<Rightarrow> u32" where
  "increment_seed seed = (if seed < unsigned_max - 1 then seed + 1 else 0)"

subsection \<open>Arrays and tiles\<close>

definition array2d_from_vector :: "'c list \<Rightarrow> u32 \<Rightarrow> u32 \<Rightarrow> 'c Array2D" where
  "array2d_from_vector input width height =
     \<lparr>arr_height = height, arr_width = width, arr_data = input\<rparr>"

definition to_symmetry :: "string \<Rightarrow> error + Symmetry" where
  "to_symmetry symmetry_name =
     (if symmetry_name = ''X'' then Inr Symmetry_X
      else if symmetry_name = ''T'' then Inr Symmetry_T
      else if symmetry_name = ''I'' then Inr Symmetry_I
      else if symmetry_name = ''L'' then Inr Symmetry_L
      else if symmetry_name = [CHR 0x5C] then Inr Symmetry_backslash
      else if symmetry_name = ''P'' then Inr Symmetry_P
      else Inl (Thrown (symmetry_name @ ''is an invalid Symmetry'')))"

definition pytile_to_tile :: "('c, 'w) PyTile \<Rightarrow> error + ('c, 'w) Tile" where
  "pytile_to_tile pytile =
     (let image = array2d_from_vector (pt_tile pytile) (pt_size pytile) (pt_size pytile) in
      case to_symmetry (pt_symmetry pytile) of
        Inl e \<Rightarrow> Inl e
      | Inr symmetry \<Rightarrow> Inr \<lparr>tile_image = image, tile_symmetry = symmetry, tile_weight = pt_weight pytile\<rparr>)"

subsection \<open>The sample loop and the retry loop\<close>

text \<open>The test \<^verbatim>\<open>result.width > 0 || result.height > 0\<close>.\<close>

definition generated :: "'c Array2D \<Rightarrow> bool" where
  "generated r = (0 < arr_width r \<or> 0 < arr_height r)"

definition say :: "bool \<Rightarrow> string \<Rightarrow> out_item list" where
  "say verbose msg = (if verbose then [Text msg, Endl] else [])"

definition warning :: string where
  "warning = ''WARNING: Failed to generate one of the samples!''"

text \<open>
  The two front-ends contain the same pair of loops (lines 81 to 115 and 194 to 228).
  The copies differ in three places only: the engine that is constructed (\<open>wfc\<close> below,
  a function of the seed), the bound of the retry loop (\<open>bound\<close>) and the text printed
  after a failed try (\<open>failed\<close>). The model writes the loops once.

  \<open>retry_loop\<close> is the inner loop \<^verbatim>\<open>for (test = 0; test < bound && !finished; test++)\<close>,
  entered at the loop test.
\<close>

function retry_loop ::
  "(u32 \<Rightarrow> 'c Array2D) \<Rightarrow> string \<Rightarrow> bool \<Rightarrow> nat \<Rightarrow> nat \<Rightarrow> nat \<Rightarrow> bool \<Rightarrow> 'c loop_state \<Rightarrow> 'c loop_state"
where
  "retry_loop wfc failed verbose bound i test finished s =
     (if test < bound \<and> \<not> finished then
        let seed = (if 0 < test then increment_seed (cur_seed s) else cur_seed s);
            r = wfc seed;
            s1 = s\<lparr>cur_seed := seed, result := r,
                   tries := tries s @ [\<lparr>ev_sample = i, ev_test = test, ev_seed = seed, ev_result = r\<rparr>]\<rparr>
        in if generated r then
             retry_loop wfc failed verbose bound i (test + 1) True
               (s1\<lparr>cout := cout s1 @ say verbose ''Finished!'',
                    results_vec := results_vec s1 @ arr_data r\<rparr>)
           else
             retry_loop wfc failed verbose bound i (test + 1) finished
               (s1\<lparr>cout := cout s1 @ say verbose failed\<rparr>)
      else s)"
  by pat_completeness auto
termination
  by (relation "measure (\<lambda>(wfc, failed, verbose, bound, i, test, finished, s). bound - test)") auto

text \<open>The outer loop \<^verbatim>\<open>for (i = 0; i < nb_samples; i++)\<close>, entered at the loop test.\<close>

function sample_loop ::
  "(u32 \<Rightarrow> 'c Array2D) \<Rightarrow> string \<Rightarrow> bool \<Rightarrow> nat \<Rightarrow> nat \<Rightarrow> nat \<Rightarrow> 'c loop_state \<Rightarrow> 'c loop_state"
where
  "sample_loop wfc failed verbose bound nb_samples i s =
     (if i < nb_samples then
        let s1 = retry_loop wfc failed verbose bound i 0 False s;
            s2 = (if generated (result s1)
                  then s1\<lparr>cout := cout s1 @ say verbose ''Finished one sample!''\<rparr>
                  else s1\<lparr>cout := cout s1 @ [Text warning, Endl]\<rparr>)
        in sample_loop wfc failed verbose bound nb_samples (i + 1) s2
      else s)"
  by pat_completeness auto
termination
  by (relation "measure (\<lambda>(wfc, failed, verbose, bound, nb_samples, i, s). nb_samples - i)") auto

text \<open>The two loops are unfolded on request only.\<close>

declare retry_loop.simps [simp del] sample_loop.simps [simp del]

definition loop_start :: "u32 \<Rightarrow> out_item list \<Rightarrow> 'c loop_state" where
  "loop_start seed printed =
     \<lparr>cur_seed = seed, result = Array2D_0_0, results_vec = [], cout = printed, tries = []\<rparr>"

definition returned :: "'c loop_state \<Rightarrow> 'c run" where
  "returned s = \<lparr>r_cout = cout s, r_tries = tries s, r_outcome = Inr (results_vec s)\<rparr>"

definition thrown :: "out_item list \<Rightarrow> string \<Rightarrow> 'c run" where
  "thrown printed msg = \<lparr>r_cout = printed, r_tries = [], r_outcome = Inl (Thrown msg)\<rparr>"

subsection \<open>The overlapping front-end\<close>

definition read_overlapping_instance ::
  "'c OverlappingWFC \<Rightarrow> u32 \<Rightarrow> u32 \<Rightarrow> u32 \<Rightarrow> bool \<Rightarrow> u32 \<Rightarrow> bool \<Rightarrow> bool \<Rightarrow> u32 \<Rightarrow> u32 \<Rightarrow>
   'c list \<Rightarrow> u32 \<Rightarrow> u32 \<Rightarrow> bool \<Rightarrow> u32 \<Rightarrow> 'c run"
where
  "read_overlapping_instance overlapping_wfc seed width height periodic_output N periodic_input
       ground nb_samples symmetry input_img input_width input_height verbose nb_tries =
     (let m = array2d_from_vector input_img input_width input_height in
      if arr_width m = 0 \<and> arr_height m = 0 then
        thrown (say verbose ''Started!'') ''Error while loading the map to sample from.''
      else
        let options = OverlappingWFCOptions periodic_input periodic_output height width
                        symmetry ground N
        in returned
             (sample_loop (\<lambda>seed. overlapping_wfc m options seed) ''Failed to generate!''
                verbose (unat nb_tries) (unat nb_samples) 0
                (loop_start seed (say verbose ''Started!''))))"

subsection \<open>The tiled front-end\<close>

text \<open>
  The loop of lines 172 to 176. \<^verbatim>\<open>unordered_map::insert\<close> leaves an existing key as it is,
  so a repeated name keeps the id of its first tile. A failing \<^verbatim>\<open>pytile_to_tile\<close> leaves
  the loop with its exception. The variable \<^verbatim>\<open>id\<close> (here \<open>next_id\<close>) counts the tiles
  pushed so far; like the loop index beside it, it is a natural number.
\<close>

fun tiles_loop ::
  "('c, 'w) PyTile list \<Rightarrow> nat \<Rightarrow> (string \<rightharpoonup> nat) \<Rightarrow> ('c, 'w) Tile list \<Rightarrow>
   error + ((string \<rightharpoonup> nat) \<times> ('c, 'w) Tile list)"
where
  "tiles_loop [] next_id tiles_id tiles = Inr (tiles_id, tiles)"
| "tiles_loop (pytile # rest) next_id tiles_id tiles =
     (let tiles_id' = (if tiles_id (pt_name pytile) = None
                       then tiles_id(pt_name pytile \<mapsto> next_id) else tiles_id)
      in case pytile_to_tile pytile of
           Inl e \<Rightarrow> Inl e
         | Inr tile \<Rightarrow> tiles_loop rest (next_id + 1) tiles_id' (tiles @ [tile]))"

text \<open>The loop of lines 179 to 192 over the neighbor entries.\<close>

fun neighbors_loop ::
  "(string \<rightharpoonup> nat) \<Rightarrow> Neighbor list \<Rightarrow> (nat \<times> u32 \<times> nat \<times> u32) list \<Rightarrow>
   (nat \<times> u32 \<times> nat \<times> u32) list"
where
  "neighbors_loop tiles_id [] neighbors_ids = neighbors_ids"
| "neighbors_loop tiles_id (neighbor # rest) neighbors_ids =
     (if tiles_id (left neighbor) = None then neighbors_loop tiles_id rest neighbors_ids
      else if tiles_id (right neighbor) = None then neighbors_loop tiles_id rest neighbors_ids
      else neighbors_loop tiles_id rest
             (neighbors_ids @ [(the (tiles_id (left neighbor)), left_or neighbor,
                                the (tiles_id (right neighbor)), right_or neighbor)]))"

text \<open>The effect of \<^verbatim>\<open>noexcept\<close> on an exception that would leave the function.\<close>

definition noexcept :: "'c run \<Rightarrow> 'c run" where
  "noexcept r = (case r_outcome r of
                   Inl (Thrown msg) \<Rightarrow> r\<lparr>r_outcome := Inl Terminated\<rparr>
                 | _ \<Rightarrow> r)"

definition read_simpletiled_instance ::
  "('c, 'w) TilingWFC \<Rightarrow> u32 \<Rightarrow> u32 \<Rightarrow> u32 \<Rightarrow> u32 \<Rightarrow> bool \<Rightarrow> bool \<Rightarrow> u32 \<Rightarrow>
   ('c, 'w) PyTile list \<Rightarrow> Neighbor list \<Rightarrow> 'c run"
where
  "read_simpletiled_instance tiling_wfc seed width height nb_samples periodic_output verbose
       nb_tries pytiles neighbors =
     noexcept
       (case tiles_loop pytiles 0 Map.empty [] of
          Inl e \<Rightarrow> \<lparr>r_cout = say verbose ''Started!'', r_tries = [], r_outcome = Inl e\<rparr>
        | Inr (tiles_id, tiles) \<Rightarrow>
            let neighbors_ids = neighbors_loop tiles_id neighbors []
            in returned
                 (sample_loop (\<lambda>seed. tiling_wfc tiles neighbors_ids height width periodic_output seed)
                    ''Failed!'' verbose 10 (unat nb_samples) 0
                    (loop_start seed (say verbose ''Started!''))))"

subsection \<open>The dispatcher\<close>

text \<open>
  The two readings of \<^verbatim>\<open>system_clock\<close> are parameters of the model, counted in
  milliseconds. The elapsed time is narrowed to \<^verbatim>\<open>int\<close> and printed when \<open>verbose\<close> is
  set; C++ division and remainder truncate towards zero. The last item ends with a newline
  character, not with \<^verbatim>\<open>endl\<close>.
\<close>

definition to_int32 :: "int \<Rightarrow> int" where
  "to_int32 x = sint (word_of_int x :: 32 word)"

definition elapsed_report :: "int \<Rightarrow> int \<Rightarrow> out_item list" where
  "elapsed_report start_time end_time =
     (let elapsed_s = to_int32 ((end_time - start_time) sdiv 1000);
          elapsed_ms = to_int32 (end_time - start_time)
      in [Text ''All samples done in '', Number elapsed_s, Text ''s, '',
          Number (elapsed_ms smod 1000), Text (''ms.'' @ [CHR 0x0A])])"

text \<open>The lines after the dispatch are reached only when the front-end returned.\<close>

definition after_dispatch :: "int \<Rightarrow> int \<Rightarrow> bool \<Rightarrow> 'c run \<Rightarrow> 'c run" where
  "after_dispatch start_time end_time verbose r =
     (case r_outcome r of
        Inl e \<Rightarrow> r
      | Inr v \<Rightarrow> r\<lparr>r_cout := r_cout r @ (if verbose then elapsed_report start_time end_time else [])\<rparr>)"

definition run_wfc_cpp ::
  "'c OverlappingWFC \<Rightarrow> ('c, 'w) TilingWFC \<Rightarrow> int \<Rightarrow> int \<Rightarrow>
   u32 \<Rightarrow> u32 \<Rightarrow> u32 \<Rightarrow> int \<Rightarrow> bool \<Rightarrow> u32 \<Rightarrow> bool \<Rightarrow> bool \<Rightarrow> u32 \<Rightarrow> u32 \<Rightarrow>
   'c list \<Rightarrow> u32 \<Rightarrow> u32 \<Rightarrow> bool \<Rightarrow> u32 \<Rightarrow> ('c, 'w) PyTile list \<Rightarrow> Neighbor list \<Rightarrow> 'c run"
where
  "run_wfc_cpp overlapping_wfc tiling_wfc start_time end_time
       seed width height sample_type periodic_output N periodic_input ground nb_samples symmetry
       input_img input_width input_height verbose nb_tries tiles neighbors =
     (if sample_type = 0 then
        after_dispatch start_time end_time verbose
          (read_simpletiled_instance tiling_wfc seed width height nb_samples periodic_output
             verbose nb_tries tiles neighbors)
      else if sample_type = 1 then
        after_dispatch start_time end_time verbose
          (read_overlapping_instance overlapping_wfc seed width height periodic_output N
             periodic_input ground nb_samples symmetry input_img input_width input_height
             verbose nb_tries)
      else thrown [] ''choose 0 (simpletiled) or 1 (overlapping) on sample_type'')"

subsection \<open>Example inputs\<close>

text \<open>
  Two stand-ins for the engines, used where a theorem is applied to a concrete call: both
  fail at every seed but 44. The tiling one returns the left tile ids of the rules it was
  given, so that the rules it receives can be read off its result.
\<close>

definition ex_overlapping :: "nat OverlappingWFC" where
  "ex_overlapping m options seed =
     (if seed = 44 then \<lparr>arr_height = 1, arr_width = 1, arr_data = [7]\<rparr> else Array2D_0_0)"

definition ex_tiling :: "(nat, unit) TilingWFC" where
  "ex_tiling tiles neighbors_ids height width periodic_output seed =
     (if seed = 44
      then \<lparr>arr_height = 1, arr_width = 1, arr_data = map (\<lambda>(a, b, c, d). a) neighbors_ids\<rparr>
      else Array2D_0_0)"

definition ex_tile :: "string \<Rightarrow> string \<Rightarrow> (nat, unit) PyTile" where
  "ex_tile name symmetry =
     \<lparr>pt_name = name, pt_tile = [0], pt_size = 1, pt_symmetry = symmetry, pt_weight = ()\<rparr>"

subsection \<open>The neighbor rules, as the interface describes them\<close>

text \<open>
  The id of a tile name is the position of the first tile that carries it. An entry is
  known when both of its names occur among the names of the tiles; a known entry is
  translated by replacing each name by its id.
\<close>

definition tile_id :: "('c, 'w) PyTile list \<Rightarrow> string \<Rightarrow> nat" where
  "tile_id pytiles name = length (takeWhile (\<lambda>pytile. pt_name pytile \<noteq> name) pytiles)"

definition known :: "('c, 'w) PyTile list \<Rightarrow> Neighbor \<Rightarrow> bool" where
  "known pytiles neighbor =
     (left neighbor \<in> pt_name ` set pytiles \<and> right neighbor \<in> pt_name ` set pytiles)"

definition to_ids :: "('c, 'w) PyTile list \<Rightarrow> Neighbor \<Rightarrow> nat \<times> u32 \<times> nat \<times> u32" where
  "to_ids pytiles neighbor =
     (tile_id pytiles (left neighbor), left_or neighbor,
      tile_id pytiles (right neighbor), right_or neighbor)"

definition ex_neighbors :: "Neighbor list" where
  "ex_neighbors =
     [\<lparr>left = ''A'', left_or = 0, right = ''B'', right_or = 1\<rparr>,
      \<lparr>left = ''A'', left_or = 0, right = ''C'', right_or = 0\<rparr>,
      \<lparr>left = ''B'', left_or = 2, right = ''A'', right_or = 3\<rparr>]"

subsection \<open>The tries of a call, as lists\<close>

text \<open>
  \<open>tries_of_sample wfc bound i test seed\<close> lists the tries that the retry loop of sample
  \<open>i\<close> makes when it is entered at \<open>test\<close> with the seed variable holding \<open>seed\<close> and
  \<open>finished\<close> false. \<open>tries_of_samples\<close> does the same for the sample loop entered at
  sample \<open>i\<close>. Both are descriptions of the loops used in the proofs: the lemmas
  \<open>retry_loop_tries\<close> and \<open>sample_loop_tries\<close> show that the loops make exactly these
  tries.
\<close>

function tries_of_sample ::
  "(u32 \<Rightarrow> 'c Array2D) \<Rightarrow> nat \<Rightarrow> nat \<Rightarrow> nat \<Rightarrow> u32 \<Rightarrow> 'c try_event list"
where
  "tries_of_sample wfc bound i test seed0 =
     (if test < bound then
        let seed = (if 0 < test then increment_seed seed0 else seed0);
            r = wfc seed;
            e = \<lparr>ev_sample = i, ev_test = test, ev_seed = seed, ev_result = r\<rparr>
        in if generated r then [e] else e # tries_of_sample wfc bound i (test + 1) seed
      else [])"
  by pat_completeness auto
termination
  by (relation "measure (\<lambda>(wfc, bound, i, test, seed0). bound - test)") auto

definition seed_after :: "'c try_event list \<Rightarrow> u32 \<Rightarrow> u32" where
  "seed_after A seed = (if A = [] then seed else ev_seed (last A))"

function tries_of_samples ::
  "(u32 \<Rightarrow> 'c Array2D) \<Rightarrow> nat \<Rightarrow> nat \<Rightarrow> nat \<Rightarrow> u32 \<Rightarrow> 'c try_event list"
where
  "tries_of_samples wfc bound nb_samples i seed =
     (if i < nb_samples then
        tries_of_sample wfc bound i 0 seed @
        tries_of_samples wfc bound nb_samples (i + 1)
          (seed_after (tries_of_sample wfc bound i 0 seed) seed)
      else [])"
  by pat_completeness auto
termination
  by (relation "measure (\<lambda>(wfc, bound, nb_samples, i, seed). nb_samples - i)") auto

declare tries_of_sample.simps [simp del] tries_of_samples.simps [simp del]

text \<open>A try succeeded when its result passes the driver's test.\<close>

definition succeeded :: "'c try_event \<Rightarrow> bool" where
  "succeeded e = generated (ev_result e)"

definition pixels :: "'c try_event list \<Rightarrow> 'c list" where
  "pixels A = concat (map (\<lambda>e. arr_data (ev_result e)) (filter succeeded A))"

text \<open>The number of warnings in what was printed.\<close>

definition warnings :: "out_item list \<Rightarrow> nat" where
  "warnings printed = length (filter (\<lambda>x. x = Text warning) printed)"

text \<open>
  The value of the seed variable when sample \<open>j\<close> begins, for a sample loop entered at
  sample 0 with \<open>seed\<close>: what the retry loop of the sample before left in it.
\<close>

fun seed_of_sample :: "(u32 \<Rightarrow> 'c Array2D) \<Rightarrow> nat \<Rightarrow> u32 \<Rightarrow> nat \<Rightarrow> u32" where
  "seed_of_sample wfc bound seed 0 = seed"
| "seed_of_sample wfc bound seed (Suc j) =
     seed_after (tries_of_sample wfc bound j 0 (seed_of_sample wfc bound seed j))
       (seed_of_sample wfc bound seed j)"

text \<open>The tries of sample \<open>i\<close> among the tries of a call.\<close>

definition sample_tries :: "'c try_event list \<Rightarrow> nat \<Rightarrow> 'c try_event list" where
  "sample_tries T i = filter (\<lambda>e. ev_sample e = i) T"

text \<open>A sample succeeded when one of its tries did.\<close>

definition sample_succeeded :: "'c try_event list \<Rightarrow> nat \<Rightarrow> bool" where
  "sample_succeeded T i = (\<exists>e \<in> set (sample_tries T i). succeeded e)"

text \<open>
  The pixel data a sample contributes: the data of its successful try, nothing when no
  try of the sample succeeded.
\<close>

definition sample_pixels :: "'c try_event list \<Rightarrow> nat \<Rightarrow> 'c list" where
  "sample_pixels T i =
     (case find succeeded (sample_tries T i) of
        None \<Rightarrow> []
      | Some e \<Rightarrow> arr_data (ev_result e))"

subsection \<open>A call in a world\<close>

text \<open>
  What a call can read besides its arguments: the two readings of the system clock, and
  a state \<open>hidden\<close> that stands for everything else that exists outside the arguments
  when the call is made (a process-wide generator, an entropy device such as the one
  \<^verbatim>\<open>get_random_seed\<close> reads). The driver itself reads the clock only. What an engine
  returns may in general depend on the hidden state, so here an engine is given that state
  before its constructor's arguments.
\<close>

record 'h world =
  clock_start :: int
  clock_end :: int
  hidden :: 'h

definition run_wfc_cpp_in ::
  "'h world \<Rightarrow> ('h \<Rightarrow> 'c OverlappingWFC) \<Rightarrow> ('h \<Rightarrow> ('c, 'w) TilingWFC) \<Rightarrow>
   u32 \<Rightarrow> u32 \<Rightarrow> u32 \<Rightarrow> int \<Rightarrow> bool \<Rightarrow> u32 \<Rightarrow> bool \<Rightarrow> bool \<Rightarrow> u32 \<Rightarrow> u32 \<Rightarrow>
   'c list \<Rightarrow> u32 \<Rightarrow> u32 \<Rightarrow> bool \<Rightarrow> u32 \<Rightarrow> ('c, 'w) PyTile list \<Rightarrow> Neighbor list \<Rightarrow> 'c run"
where
  "run_wfc_cpp_in w overlapping_wfc tiling_wfc
       seed width height sample_type periodic_output N periodic_input ground nb_samples symmetry
       input_img input_width input_height verbose nb_tries tiles neighbors =
     run_wfc_cpp (overlapping_wfc (hidden w)) (tiling_wfc (hidden w)) (clock_start w) (clock_end w)
       seed width height sample_type periodic_output N periodic_input ground nb_samples symmetry
       input_img input_width input_height verbose nb_tries tiles neighbors"



text \<open>
  An engine that is not as the specification asks: it succeeds or fails as a flag of the
  hidden state says, whatever its seed.
\<close>

definition ex_leaky :: "bool \<Rightarrow> nat OverlappingWFC" where
  "ex_leaky h m options seed =
     (if h then \<lparr>arr_height = 1, arr_width = 1, arr_data = [7]\<rparr> else Array2D_0_0)"

section \<open>The seed increment\<close>

lemma increment_seed_below:
  "seed < unsigned_max - 1 \<Longrightarrow> increment_seed seed = seed + 1"
  by (simp add: increment_seed_def)

text \<open>
  Claim C2. After a failed try the next try should run at seed \<open>(s + 1) mod 2^32\<close>, for
  every 32-bit seed \<open>s\<close>. At \<open>s = 2^32 - 2\<close> the function returns 0 where
  \<open>(s + 1) mod 2^32\<close> is \<open>2^32 - 1\<close>: the test compares with \<open>max - 1\<close>, while the comment
  above the function promises an increase for every seed less than the maximum. A call
  with that seed whose first try fails makes its second try at seed 0. (It is the only
  seed at which the function differs from \<open>s + 1\<close>: lemma \<open>increment_seed_eq_iff\<close>.)
\<close>

theorem increment_seed_at_max_minus_1:
  "increment_seed 4294967294 = 0 \<and>
   unat (increment_seed 4294967294) \<noteq> (unat (4294967294 :: u32) + 1) mod 2 ^ 32 \<and>
   map ev_seed (r_tries (run_wfc_cpp ex_overlapping ex_tiling 0 5 4294967294 1 1 1 False 1 False
     False 1 1 [5] 1 1 False 2 [] [])) = [4294967294, 0]"
proof -
  have "map ev_seed (r_tries (run_wfc_cpp ex_overlapping ex_tiling 0 5 4294967294 1 1 1 False 1
     False False 1 1 [5] 1 1 False 2 [] [])) = [4294967294, 0]"
    by code_simp
  then show ?thesis
    by (simp add: increment_seed_def unsigned_max_def)
qed

section \<open>The symmetry names\<close>

lemma to_symmetry_invalid:
  "symmetry_name \<notin> {''X'', ''T'', ''I'', ''L'', [CHR 0x5C], ''P''} \<Longrightarrow>
   to_symmetry symmetry_name = Inl (Thrown (symmetry_name @ ''is an invalid Symmetry''))"
  by (simp add: to_symmetry_def)

lemma to_symmetry_valid:
  "symmetry_name \<in> {''X'', ''T'', ''I'', ''L'', [CHR 0x5C], ''P''} \<Longrightarrow>
   \<exists>y. to_symmetry symmetry_name = Inr y"
  by (auto simp add: to_symmetry_def)

lemma pytile_to_tile_invalid:
  "pt_symmetry pytile \<notin> {''X'', ''T'', ''I'', ''L'', [CHR 0x5C], ''P''} \<Longrightarrow>
   pytile_to_tile pytile = Inl (Thrown (pt_symmetry pytile @ ''is an invalid Symmetry''))"
  by (simp add: pytile_to_tile_def to_symmetry_invalid)

lemma pytile_to_tile_error:
  "pytile_to_tile pytile = Inl e \<Longrightarrow> \<exists>msg. e = Thrown msg"
  by (auto simp: pytile_to_tile_def to_symmetry_def split: if_splits)

text \<open>The tile loop stops with the exception of the first tile whose symmetry is not a name.\<close>

lemma tiles_loop_invalid:
  "pytile \<in> set pytiles \<Longrightarrow>
   pt_symmetry pytile \<notin> {''X'', ''T'', ''I'', ''L'', [CHR 0x5C], ''P''} \<Longrightarrow>
   \<exists>msg. tiles_loop pytiles next_id tiles_id tiles = Inl (Thrown msg)"
proof (induction pytiles arbitrary: next_id tiles_id tiles)
  case Nil
  then show ?case by simp
next
  case (Cons p rest)
  show ?case
  proof (cases "pytile_to_tile p")
    case (Inl e)
    with pytile_to_tile_error [of p e] show ?thesis by (auto simp add: Let_def)
  next
    case (Inr t)
    with Cons.prems have "pytile \<in> set rest"
      by (auto simp: pytile_to_tile_invalid)
    from Cons.IH [OF this Cons.prems(2)] Inr show ?thesis by (simp add: Let_def)
  qed
qed

text \<open>
  In the tiled front-end that exception meets \<^verbatim>\<open>noexcept\<close>: the process is terminated,
  whatever the other arguments are.
\<close>

lemma read_simpletiled_instance_invalid_symmetry:
  assumes "pytile \<in> set pytiles"
    and "pt_symmetry pytile \<notin> {''X'', ''T'', ''I'', ''L'', [CHR 0x5C], ''P''}"
  shows "read_simpletiled_instance tiling_wfc seed width height nb_samples periodic_output
           verbose nb_tries pytiles neighbors =
         \<lparr>r_cout = say verbose ''Started!'', r_tries = [], r_outcome = Inl Terminated\<rparr>"
proof -
  from tiles_loop_invalid [OF assms] obtain msg
    where "tiles_loop pytiles 0 Map.empty ([] :: ('a, 'b) Tile list) = Inl (Thrown msg)"
    by blast
  then show ?thesis
    by (simp add: read_simpletiled_instance_def noexcept_def)
qed

text \<open>
  Claim C7. A tile whose symmetry string is not one of the six names should abort the call
  with an error that reaches the caller together with its message. \<open>to_symmetry\<close> does
  throw the message, but \<^verbatim>\<open>read_simpletiled_instance\<close> is declared \<^verbatim>\<open>noexcept\<close>, so the
  exception cannot leave it: for a single tile with symmetry \<open>Z\<close> the call ends in
  \<^verbatim>\<open>std::terminate\<close> and the caller of \<^verbatim>\<open>run_wfc_cpp\<close> receives neither an exception nor
  a message.
\<close>

theorem invalid_symmetry_terminates:
  "to_symmetry ''Z'' = Inl (Thrown ''Zis an invalid Symmetry'') \<and>
   run_wfc_cpp overlapping_wfc tiling_wfc start_time end_time 42 1 1 0 False 1 False False 1 1
     [] 0 0 False 10
     [\<lparr>pt_name = ''a'', pt_tile = [c], pt_size = 1, pt_symmetry = ''Z'', pt_weight = w\<rparr>] [] =
   \<lparr>r_cout = [], r_tries = [], r_outcome = Inl Terminated\<rparr>"
proof -
  have "to_symmetry ''Z'' = Inl (Thrown ''Zis an invalid Symmetry'')"
    by (simp add: to_symmetry_def)
  moreover have "read_simpletiled_instance tiling_wfc 42 1 1 1 False False 10
     [\<lparr>pt_name = ''a'', pt_tile = [c], pt_size = 1, pt_symmetry = ''Z'', pt_weight = w\<rparr>] [] =
     \<lparr>r_cout = say False ''Started!'', r_tries = [], r_outcome = Inl Terminated\<rparr>"
    by (rule read_simpletiled_instance_invalid_symmetry
        [of "\<lparr>pt_name = ''a'', pt_tile = [c], pt_size = 1, pt_symmetry = ''Z'', pt_weight = w\<rparr>"])
       simp_all
  ultimately show ?thesis
    by (simp add: run_wfc_cpp_def after_dispatch_def say_def)
qed

section \<open>The dispatch on the sample type\<close>

text \<open>
  Claim C5. \<^verbatim>\<open>run_wfc_cpp\<close> dispatches on \<open>sample_type\<close>: 0 runs the tiled front-end, 1 runs
  the overlapping front-end (in both cases followed only by the lines after the dispatch,
  which add the elapsed time to the output of a verbose call); every other value throws the
  usage error, and then nothing has been printed, no engine has been run and no vector is
  returned.
\<close>

theorem run_wfc_cpp_dispatch:
  "(sample_type = 0 \<longrightarrow>
      run_wfc_cpp overlapping_wfc tiling_wfc start_time end_time seed width height sample_type
        periodic_output N periodic_input ground nb_samples symmetry input_img input_width
        input_height verbose nb_tries tiles neighbors =
      after_dispatch start_time end_time verbose
        (read_simpletiled_instance tiling_wfc seed width height nb_samples periodic_output
           verbose nb_tries tiles neighbors)) \<and>
   (sample_type = 1 \<longrightarrow>
      run_wfc_cpp overlapping_wfc tiling_wfc start_time end_time seed width height sample_type
        periodic_output N periodic_input ground nb_samples symmetry input_img input_width
        input_height verbose nb_tries tiles neighbors =
      after_dispatch start_time end_time verbose
        (read_overlapping_instance overlapping_wfc seed width height periodic_output N
           periodic_input ground nb_samples symmetry input_img input_width input_height
           verbose nb_tries)) \<and>
   (sample_type \<noteq> 0 \<and> sample_type \<noteq> 1 \<longrightarrow>
      run_wfc_cpp overlapping_wfc tiling_wfc start_time end_time seed width height sample_type
        periodic_output N periodic_input ground nb_samples symmetry input_img input_width
        input_height verbose nb_tries tiles neighbors =
      \<lparr>r_cout = [], r_tries = [],
       r_outcome = Inl (Thrown ''choose 0 (simpletiled) or 1 (overlapping) on sample_type'')\<rparr>)"
  by (simp add: run_wfc_cpp_def thrown_def)

theorem run_wfc_cpp_dispatch_witness:
  "(2::int) \<noteq> 0 \<and> (2::int) \<noteq> 1 \<and>
   run_wfc_cpp ex_overlapping ex_tiling 0 5 42 1 1 2 False 1 False False 1 1 [] 0 0 True 1 [] [] =
   \<lparr>r_cout = [], r_tries = [],
    r_outcome = Inl (Thrown ''choose 0 (simpletiled) or 1 (overlapping) on sample_type'')\<rparr>"
  using run_wfc_cpp_dispatch
    [of 2 ex_overlapping ex_tiling 0 5 42 1 1 False 1 False False 1 1 "[]" 0 0 True 1 "[]" "[]"]
  by simp

section \<open>The guard on the exemplar\<close>

text \<open>
  Claim C8, as stated, fails. An exemplar of width 0 and height 1 with an empty pixel
  vector contains no pixels, yet the overlapping front-end raises nothing: it constructs an
  engine, runs it and returns what the engine produced.
\<close>

theorem no_pixels_not_rejected:
  "r_outcome (read_overlapping_instance ex_overlapping 44 1 1 False 1 False False 1 1
      [] 0 1 False 1) = Inr [7] \<and>
   r_tries (read_overlapping_instance ex_overlapping 44 1 1 False 1 False False 1 1
      [] 0 1 False 1) =
     [\<lparr>ev_sample = 0, ev_test = 0, ev_seed = 44,
       ev_result = \<lparr>arr_height = 1, arr_width = 1, arr_data = [7]\<rparr>\<rparr>]"
  by (simp add: read_overlapping_instance_def array2d_from_vector_def returned_def
      loop_start_def say_def generated_def ex_overlapping_def Let_def
      retry_loop.simps sample_loop.simps)

text \<open>
  Claim C8, amended. In overlapping mode an input image whose \<open>input_width\<close> and
  \<open>input_height\<close> are both zero raises the error ``Error while loading the map to sample
  from.'': the front-end throws before any engine is constructed, and the exception leaves
  \<^verbatim>\<open>run_wfc_cpp\<close> as well, so the whole call is aborted.
\<close>

theorem empty_exemplar_rejected:
  "input_width = 0 \<and> input_height = 0 \<longrightarrow>
   read_overlapping_instance overlapping_wfc seed width height periodic_output N periodic_input
     ground nb_samples symmetry input_img input_width input_height verbose nb_tries =
   \<lparr>r_cout = say verbose ''Started!'', r_tries = [],
    r_outcome = Inl (Thrown ''Error while loading the map to sample from.'')\<rparr> \<and>
   run_wfc_cpp overlapping_wfc tiling_wfc start_time end_time seed width height 1
     periodic_output N periodic_input ground nb_samples symmetry input_img input_width
     input_height verbose nb_tries tiles neighbors =
   \<lparr>r_cout = say verbose ''Started!'', r_tries = [],
    r_outcome = Inl (Thrown ''Error while loading the map to sample from.'')\<rparr>"
  by (simp add: run_wfc_cpp_def after_dispatch_def read_overlapping_instance_def
      array2d_from_vector_def thrown_def)

theorem empty_exemplar_rejected_witness:
  "read_overlapping_instance ex_overlapping 44 1 1 False 1 False False 1 1 [] 0 0 True 1 =
   \<lparr>r_cout = [Text ''Started!'', Endl], r_tries = [],
    r_outcome = Inl (Thrown ''Error while loading the map to sample from.'')\<rparr> \<and>
   run_wfc_cpp ex_overlapping ex_tiling 0 5 44 1 1 1 False 1 False False 1 1 [] 0 0 True 1 [] [] =
   \<lparr>r_cout = [Text ''Started!'', Endl], r_tries = [],
    r_outcome = Inl (Thrown ''Error while loading the map to sample from.'')\<rparr>"
  using empty_exemplar_rejected
    [of 0 0 ex_overlapping 44 1 1 False 1 False False 1 1 "[]" True 1 ex_tiling 0 5 "[]" "[]"]
  by (simp add: say_def)

text \<open>
  Claim C10. In overlapping mode an input image with exactly one of \<open>input_width\<close>,
  \<open>input_height\<close> equal to zero does not raise the empty-exemplar error: the guard asks for
  both to be zero, so the call goes on into the sample loop and returns its vector.
\<close>

theorem one_zero_dimension_passes_guard:
  "(input_width = 0 \<and> input_height \<noteq> 0) \<or> (input_width \<noteq> 0 \<and> input_height = 0) \<longrightarrow>
   read_overlapping_instance overlapping_wfc seed width height periodic_output N periodic_input
     ground nb_samples symmetry input_img input_width input_height verbose nb_tries =
   returned
     (sample_loop
        (overlapping_wfc (array2d_from_vector input_img input_width input_height)
           (OverlappingWFCOptions periodic_input periodic_output height width symmetry ground N))
        ''Failed to generate!'' verbose (unat nb_tries) (unat nb_samples) 0
        (loop_start seed (say verbose ''Started!'')))"
  by (auto simp add: read_overlapping_instance_def array2d_from_vector_def)

theorem one_zero_dimension_passes_guard_witness:
  "r_outcome (read_overlapping_instance ex_overlapping 43 1 1 False 1 False False 1 1
      [] 3 0 False 2) = Inr [7]"
  using one_zero_dimension_passes_guard
    [of 3 0 ex_overlapping 43 1 1 False 1 False False 1 1 "[]" False 2]
  by (simp add: array2d_from_vector_def returned_def loop_start_def say_def generated_def
      ex_overlapping_def Array2D_0_0_def increment_seed_def unsigned_max_def Let_def
      retry_loop.simps sample_loop.simps)

section \<open>The neighbor rules of the tiled front-end\<close>

lemma tile_id_Cons:
  "tile_id (p # ps) name = (if pt_name p = name then 0 else Suc (tile_id ps name))"
  by (simp add: tile_id_def)

lemma tiles_loop_ids:
  "tiles_loop ps n m ts = Inr (m', ts') \<Longrightarrow>
   m' k = (case m k of
             Some v \<Rightarrow> Some v
           | None \<Rightarrow> if k \<in> pt_name ` set ps then Some (n + tile_id ps k) else None)"
proof (induction ps arbitrary: n m ts)
  case Nil
  then show ?case by (auto split: option.splits)
next
  case (Cons p rest)
  from Cons.prems obtain t where t: "pytile_to_tile p = Inr t"
    by (cases "pytile_to_tile p") (simp_all add: Let_def)
  let ?m1 = "if m (pt_name p) = None then m(pt_name p \<mapsto> n) else m"
  from Cons.prems t have "tiles_loop rest (n + 1) ?m1 (ts @ [t]) = Inr (m', ts')"
    by (simp add: Let_def)
  from Cons.IH [OF this] show ?case
    by (auto simp: tile_id_Cons split: option.splits if_splits)
qed

lemma tiles_loop_first_ids:
  assumes "tiles_loop pytiles 0 Map.empty [] = Inr (tiles_id, tiles)"
  shows "tiles_id name = (if name \<in> pt_name ` set pytiles then Some (tile_id pytiles name) else None)"
  using tiles_loop_ids [OF assms, of name] by simp

lemma neighbors_loop_filter_map:
  "neighbors_loop tiles_id ns acc =
   acc @ map (\<lambda>n. (the (tiles_id (left n)), left_or n, the (tiles_id (right n)), right_or n))
           (filter (\<lambda>n. tiles_id (left n) \<noteq> None \<and> tiles_id (right n) \<noteq> None) ns)"
  by (induction ns arbitrary: acc) auto

lemma neighbors_loop_known:
  assumes "tiles_loop pytiles 0 Map.empty [] = Inr (tiles_id, tiles)"
  shows "neighbors_loop tiles_id neighbors [] = map (to_ids pytiles) (filter (known pytiles) neighbors)"
proof -
  note ids = tiles_loop_first_ids [OF assms]
  have f: "filter (\<lambda>n. tiles_id (left n) \<noteq> None \<and> tiles_id (right n) \<noteq> None) neighbors =
        filter (known pytiles) neighbors"
    by (rule filter_cong) (simp_all add: known_def ids)
  have "map (\<lambda>n. (the (tiles_id (left n)), left_or n, the (tiles_id (right n)), right_or n))
          (filter (known pytiles) neighbors) =
        map (to_ids pytiles) (filter (known pytiles) neighbors)"
    by (rule map_cong) (simp_all add: known_def to_ids_def ids)
  with f show ?thesis
    by (simp add: neighbors_loop_filter_map)
qed

lemma tile_id_names:
  "name \<in> pt_name ` set pytiles \<Longrightarrow>
   tile_id pytiles name < length pytiles \<and> pt_name (pytiles ! tile_id pytiles name) = name \<and>
   (\<forall>j < tile_id pytiles name. pt_name (pytiles ! j) \<noteq> name)"
proof (induction pytiles)
  case Nil
  then show ?case by simp
next
  case (Cons p ps)
  show ?case
  proof (cases "pt_name p = name")
    case True
    then show ?thesis by (simp add: tile_id_Cons)
  next
    case False
    with Cons.prems have "name \<in> pt_name ` set ps" by auto
    from Cons.IH [OF this] False show ?thesis
      by (auto simp: tile_id_Cons less_Suc_eq_0_disj)
  qed
qed

section \<open>What the two loops do\<close>

lemma retry_loop_finished [simp]:
  "retry_loop wfc failed verbose bound i test True s = s"
  by (subst retry_loop.simps) simp

lemma retry_loop_tries:
  "tries (retry_loop wfc failed verbose bound i test finished s) =
   tries s @ (if finished then [] else tries_of_sample wfc bound i test (cur_seed s))"
proof (induction wfc failed verbose bound i test finished s rule: retry_loop.induct)
  case (1 wfc failed verbose bound i test finished s)
  show ?case
  proof (cases "test < bound \<and> \<not> finished")
    case True
    define seed where "seed = (if 0 < test then increment_seed (cur_seed s) else cur_seed s)"
    show ?thesis
    proof (cases "generated (wfc seed)")
      case g: True
      show ?thesis
        using True g
        by (subst retry_loop.simps, subst tries_of_sample.simps) (simp add: Let_def seed_def)
    next
      case g: False
      from "1.IH"(2) [OF True refl refl refl] g True
      show ?thesis
        by (subst retry_loop.simps, subst tries_of_sample.simps) (simp add: Let_def seed_def)
    qed
  next
    case False
    then show ?thesis
      by (subst retry_loop.simps, subst tries_of_sample.simps) auto
  qed
qed

lemma retry_loop_cur_seed:
  "cur_seed (retry_loop wfc failed verbose bound i test finished s) =
   (if finished then cur_seed s
    else seed_after (tries_of_sample wfc bound i test (cur_seed s)) (cur_seed s))"
proof (induction wfc failed verbose bound i test finished s rule: retry_loop.induct)
  case (1 wfc failed verbose bound i test finished s)
  show ?case
  proof (cases "test < bound \<and> \<not> finished")
    case True
    define seed where "seed = (if 0 < test then increment_seed (cur_seed s) else cur_seed s)"
    show ?thesis
    proof (cases "generated (wfc seed)")
      case g: True
      show ?thesis
        using True g
        by (subst retry_loop.simps, subst tries_of_sample.simps)
           (simp add: Let_def seed_def seed_after_def)
    next
      case g: False
      from "1.IH"(2) [OF True refl refl refl] g True
      show ?thesis
        by (subst retry_loop.simps, subst tries_of_sample.simps)
           (simp add: Let_def seed_def seed_after_def)
    qed
  next
    case False
    then show ?thesis
      by (subst retry_loop.simps, subst tries_of_sample.simps) (auto simp: seed_after_def)
  qed
qed

lemma retry_loop_result:
  "result (retry_loop wfc failed verbose bound i test finished s) =
   (if finished \<or> tries_of_sample wfc bound i test (cur_seed s) = [] then result s
    else ev_result (last (tries_of_sample wfc bound i test (cur_seed s))))"
proof (induction wfc failed verbose bound i test finished s rule: retry_loop.induct)
  case (1 wfc failed verbose bound i test finished s)
  show ?case
  proof (cases "test < bound \<and> \<not> finished")
    case True
    define seed where "seed = (if 0 < test then increment_seed (cur_seed s) else cur_seed s)"
    show ?thesis
    proof (cases "generated (wfc seed)")
      case g: True
      show ?thesis
        using True g
        by (subst retry_loop.simps, subst (1 2) tries_of_sample.simps)
           (simp add: Let_def seed_def)
    next
      case g: False
      from "1.IH"(2) [OF True refl refl refl] g True
      show ?thesis
        by (subst retry_loop.simps, subst (1 2) tries_of_sample.simps)
           (simp add: Let_def seed_def)
    qed
  next
    case False
    then show ?thesis
      by (subst retry_loop.simps, subst tries_of_sample.simps) auto
  qed
qed

lemma pixels_append [simp]: "pixels (A @ B) = pixels A @ pixels B"
  by (simp add: pixels_def)

lemma pixels_Nil [simp]: "pixels [] = []"
  by (simp add: pixels_def)

lemma retry_loop_results_vec:
  "results_vec (retry_loop wfc failed verbose bound i test finished s) =
   results_vec s @ (if finished then [] else pixels (tries_of_sample wfc bound i test (cur_seed s)))"
proof (induction wfc failed verbose bound i test finished s rule: retry_loop.induct)
  case (1 wfc failed verbose bound i test finished s)
  show ?case
  proof (cases "test < bound \<and> \<not> finished")
    case True
    define seed where "seed = (if 0 < test then increment_seed (cur_seed s) else cur_seed s)"
    show ?thesis
    proof (cases "generated (wfc seed)")
      case g: True
      show ?thesis
        using True g
        by (subst retry_loop.simps, subst tries_of_sample.simps)
           (simp add: Let_def seed_def pixels_def succeeded_def)
    next
      case g: False
      from "1.IH"(2) [OF True refl refl refl] g True
      show ?thesis
        by (subst retry_loop.simps, subst tries_of_sample.simps)
           (simp add: Let_def seed_def pixels_def succeeded_def)
    qed
  next
    case False
    then show ?thesis
      by (subst retry_loop.simps, subst tries_of_sample.simps) auto
  qed
qed

lemma warnings_append [simp]: "warnings (xs @ ys) = warnings xs + warnings ys"
  by (simp add: warnings_def)

lemma warnings_say [simp]: "msg \<noteq> warning \<Longrightarrow> warnings (say verbose msg) = 0"
  by (simp add: warnings_def say_def)

lemma warnings_warning [simp]: "warnings [Text warning, Endl] = 1"
  by (simp add: warnings_def)

lemma finished_not_warning [simp]:
  "''Finished!'' \<noteq> warning" "''Finished one sample!'' \<noteq> warning"
  "''Failed!'' \<noteq> warning" "''Failed to generate!'' \<noteq> warning" "''Started!'' \<noteq> warning"
  by (simp_all add: warning_def)

lemma retry_loop_warnings:
  "failed \<noteq> warning \<Longrightarrow>
   warnings (cout (retry_loop wfc failed verbose bound i test finished s)) = warnings (cout s)"
proof (induction wfc failed verbose bound i test finished s rule: retry_loop.induct)
  case (1 wfc failed verbose bound i test finished s)
  show ?case
  proof (cases "test < bound \<and> \<not> finished")
    case True
    define seed where "seed = (if 0 < test then increment_seed (cur_seed s) else cur_seed s)"
    show ?thesis
    proof (cases "generated (wfc seed)")
      case g: True
      show ?thesis
        using True g
        by (subst retry_loop.simps) (simp add: Let_def seed_def)
    next
      case g: False
      from "1.IH"(2) [OF True refl refl refl _ "1.prems"] g True "1.prems"
      show ?thesis
        by (subst retry_loop.simps) (simp add: Let_def seed_def)
    qed
  next
    case False
    then show ?thesis
      by (subst retry_loop.simps) auto
  qed
qed

lemma sample_loop_tries:
  "tries (sample_loop wfc failed verbose bound nb_samples i s) =
   tries s @ tries_of_samples wfc bound nb_samples i (cur_seed s)"
proof (induction wfc failed verbose bound nb_samples i s rule: sample_loop.induct)
  case (1 wfc failed verbose bound nb_samples i s)
  show ?case
  proof (cases "i < nb_samples")
    case True
    from "1.IH" [OF True refl refl] True show ?thesis
      by (subst sample_loop.simps, subst tries_of_samples.simps)
         (simp add: Let_def retry_loop_tries retry_loop_cur_seed)
  next
    case False
    then show ?thesis
      by (subst sample_loop.simps, subst tries_of_samples.simps) simp
  qed
qed

lemma sample_loop_results_vec:
  "results_vec (sample_loop wfc failed verbose bound nb_samples i s) =
   results_vec s @ pixels (tries_of_samples wfc bound nb_samples i (cur_seed s))"
proof (induction wfc failed verbose bound nb_samples i s rule: sample_loop.induct)
  case (1 wfc failed verbose bound nb_samples i s)
  show ?case
  proof (cases "i < nb_samples")
    case True
    from "1.IH" [OF True refl refl] True show ?thesis
      by (subst sample_loop.simps, subst tries_of_samples.simps)
         (simp add: Let_def retry_loop_results_vec retry_loop_cur_seed)
  next
    case False
    then show ?thesis
      by (subst sample_loop.simps, subst tries_of_samples.simps) simp
  qed
qed

section \<open>The tries of one sample\<close>

lemma tries_of_sample_Nil_iff:
  "tries_of_sample wfc bound i test seed = [] \<longleftrightarrow> \<not> test < bound"
  by (subst tries_of_sample.simps) (simp add: Let_def)

lemma tries_of_sample_length:
  "length (tries_of_sample wfc bound i test seed) \<le> bound - test"
proof (induction wfc bound i test seed rule: tries_of_sample.induct)
  case (1 wfc bound i test seed0)
  show ?case
  proof (cases "test < bound")
    case True
    define seed where "seed = (if 0 < test then increment_seed seed0 else seed0)"
    show ?thesis
    proof (cases "generated (wfc seed)")
      case g: True
      with True show ?thesis
        by (subst tries_of_sample.simps) (simp add: Let_def seed_def)
    next
      case g: False
      from "1.IH" [OF True refl refl refl] g True show ?thesis
        by (subst tries_of_sample.simps) (simp add: Let_def seed_def)
    qed
  next
    case False
    then show ?thesis by (subst tries_of_sample.simps) simp
  qed
qed

lemma tries_of_sample_events:
  "e \<in> set (tries_of_sample wfc bound i test seed) \<Longrightarrow>
   ev_sample e = i \<and> ev_result e = wfc (ev_seed e) \<and> test \<le> ev_test e \<and> ev_test e < bound"
proof (induction wfc bound i test seed rule: tries_of_sample.induct)
  case (1 wfc bound i test seed0)
  show ?case
  proof (cases "test < bound")
    case True
    define seed where "seed = (if 0 < test then increment_seed seed0 else seed0)"
    show ?thesis
    proof (cases "generated (wfc seed)")
      case g: True
      with True "1.prems" show ?thesis
        by (subst (asm) tries_of_sample.simps) (simp add: Let_def seed_def)
    next
      case g: False
      from "1.prems" g True
      have "e = \<lparr>ev_sample = i, ev_test = test, ev_seed = seed, ev_result = wfc seed\<rparr> \<or>
            e \<in> set (tries_of_sample wfc bound i (test + 1) seed)"
        by (subst (asm) tries_of_sample.simps) (simp add: Let_def seed_def)
      then show ?thesis
      proof
        assume "e = \<lparr>ev_sample = i, ev_test = test, ev_seed = seed, ev_result = wfc seed\<rparr>"
        with True show ?thesis by simp
      next
        assume "e \<in> set (tries_of_sample wfc bound i (test + 1) seed)"
        from "1.IH" [OF True refl refl refl _ this [unfolded seed_def]] g show ?thesis
          by (simp add: seed_def)
      qed
    qed
  next
    case False
    with "1.prems" show ?thesis by (subst (asm) tries_of_sample.simps) simp
  qed
qed

text \<open>Only the last try of a sample can have succeeded.\<close>

lemma tries_of_sample_butlast:
  "e \<in> set (butlast (tries_of_sample wfc bound i test seed)) \<Longrightarrow> \<not> succeeded e"
proof (induction wfc bound i test seed rule: tries_of_sample.induct)
  case (1 wfc bound i test seed0)
  show ?case
  proof (cases "test < bound")
    case True
    define seed where "seed = (if 0 < test then increment_seed seed0 else seed0)"
    show ?thesis
    proof (cases "generated (wfc seed)")
      case g: True
      with True "1.prems" show ?thesis
        by (subst (asm) tries_of_sample.simps) (simp add: Let_def seed_def)
    next
      case g: False
      from "1.prems" g True
      have "e \<in> set (butlast (\<lparr>ev_sample = i, ev_test = test, ev_seed = seed, ev_result = wfc seed\<rparr> #
               tries_of_sample wfc bound i (test + 1) seed))"
        by (subst (asm) tries_of_sample.simps) (simp add: Let_def seed_def)
      then have "e = \<lparr>ev_sample = i, ev_test = test, ev_seed = seed, ev_result = wfc seed\<rparr> \<or>
            e \<in> set (butlast (tries_of_sample wfc bound i (test + 1) seed))"
        by (auto split: if_splits)
      then show ?thesis
      proof
        assume "e = \<lparr>ev_sample = i, ev_test = test, ev_seed = seed, ev_result = wfc seed\<rparr>"
        with g show ?thesis by (simp add: succeeded_def)
      next
        assume "e \<in> set (butlast (tries_of_sample wfc bound i (test + 1) seed))"
        from "1.IH" [OF True refl refl refl _ this [unfolded seed_def]] g show ?thesis
          by (simp add: seed_def)
      qed
    qed
  next
    case False
    with "1.prems" show ?thesis by (subst (asm) tries_of_sample.simps) simp
  qed
qed

text \<open>A retry loop that stops before its bound has stopped on a success.\<close>

lemma tries_of_sample_short:
  "length (tries_of_sample wfc bound i test seed) < bound - test \<Longrightarrow>
   succeeded (last (tries_of_sample wfc bound i test seed))"
proof (induction wfc bound i test seed rule: tries_of_sample.induct)
  case (1 wfc bound i test seed0)
  show ?case
  proof (cases "test < bound")
    case True
    define seed where "seed = (if 0 < test then increment_seed seed0 else seed0)"
    show ?thesis
    proof (cases "generated (wfc seed)")
      case g: True
      with True show ?thesis
        by (subst tries_of_sample.simps) (simp add: Let_def seed_def succeeded_def)
    next
      case g: False
      have eq: "tries_of_sample wfc bound i test seed0 =
            \<lparr>ev_sample = i, ev_test = test, ev_seed = seed, ev_result = wfc seed\<rparr> #
            tries_of_sample wfc bound i (test + 1) seed"
        using g True by (subst tries_of_sample.simps) (simp add: Let_def seed_def)
      with "1.prems" have len: "length (tries_of_sample wfc bound i (test + 1) seed) < bound - (test + 1)"
        by simp
      then have ne: "tries_of_sample wfc bound i (test + 1) seed \<noteq> []"
        by (auto simp: tries_of_sample_Nil_iff)
      from "1.IH" [OF True refl refl refl _ len [unfolded seed_def]] g
      have "succeeded (last (tries_of_sample wfc bound i (test + 1) seed))"
        by (simp add: seed_def)
      with eq ne show ?thesis by simp
    qed
  next
    case False
    with "1.prems" show ?thesis by simp
  qed
qed

text \<open>The tries of a sample are numbered from the entry on, and each seed is the increment
  of the seed before it.\<close>

lemma tries_of_sample_nth:
  "k < length (tries_of_sample wfc bound i test seed) \<Longrightarrow>
   ev_test (tries_of_sample wfc bound i test seed ! k) = test + k \<and>
   ev_seed (tries_of_sample wfc bound i test seed ! k) =
     (increment_seed ^^ (if 0 < test then Suc k else k)) seed"
proof (induction wfc bound i test seed arbitrary: k rule: tries_of_sample.induct)
  case (1 wfc bound i test seed0)
  show ?case
  proof (cases "test < bound")
    case True
    define seed where "seed = (if 0 < test then increment_seed seed0 else seed0)"
    show ?thesis
    proof (cases "generated (wfc seed)")
      case g: True
      have eq: "tries_of_sample wfc bound i test seed0 =
            [\<lparr>ev_sample = i, ev_test = test, ev_seed = seed, ev_result = wfc seed\<rparr>]"
        using g True by (subst tries_of_sample.simps) (simp add: Let_def seed_def)
      with "1.prems" show ?thesis by (simp add: seed_def)
    next
      case g: False
      have eq: "tries_of_sample wfc bound i test seed0 =
            \<lparr>ev_sample = i, ev_test = test, ev_seed = seed, ev_result = wfc seed\<rparr> #
            tries_of_sample wfc bound i (test + 1) seed"
        using g True by (subst tries_of_sample.simps) (simp add: Let_def seed_def)
      show ?thesis
      proof (cases k)
        case 0
        with eq show ?thesis by (simp add: seed_def)
      next
        case (Suc k')
        with "1.prems" eq have "k' < length (tries_of_sample wfc bound i (test + 1) seed)"
          by simp
        from "1.IH" [OF True refl refl refl _ this [unfolded seed_def]] g
        have "ev_test (tries_of_sample wfc bound i (test + 1) seed ! k') = test + 1 + k' \<and>
              ev_seed (tries_of_sample wfc bound i (test + 1) seed ! k') =
                (increment_seed ^^ Suc k') seed"
          by (simp add: seed_def)
        with eq Suc show ?thesis
          by (simp add: seed_def funpow_swap1)
      qed
    qed
  next
    case False
    with "1.prems" show ?thesis by (simp add: tries_of_sample_Nil_iff [THEN iffD2])
  qed
qed

section \<open>The tries of all samples\<close>

lemma tries_of_samples_events:
  "e \<in> set (tries_of_samples wfc bound nb_samples i seed) \<Longrightarrow>
   i \<le> ev_sample e \<and> ev_sample e < nb_samples"
proof (induction wfc bound nb_samples i seed rule: tries_of_samples.induct)
  case (1 wfc bound nb_samples i seed)
  show ?case
  proof (cases "i < nb_samples")
    case True
    from "1.prems" True
    have "e \<in> set (tries_of_sample wfc bound i 0 seed) \<or>
          e \<in> set (tries_of_samples wfc bound nb_samples (i + 1)
                     (seed_after (tries_of_sample wfc bound i 0 seed) seed))"
      by (subst (asm) tries_of_samples.simps) simp
    then show ?thesis
    proof
      assume "e \<in> set (tries_of_sample wfc bound i 0 seed)"
      from tries_of_sample_events [OF this] True show ?thesis by simp
    next
      assume "e \<in> set (tries_of_samples wfc bound nb_samples (i + 1)
                     (seed_after (tries_of_sample wfc bound i 0 seed) seed))"
      from "1.IH" [OF True this] show ?thesis by simp
    qed
  next
    case False
    with "1.prems" show ?thesis by (subst (asm) tries_of_samples.simps) simp
  qed
qed

text \<open>The tries of a call are the tries of its samples, one sample after the other.\<close>

lemma tries_of_samples_concat:
  "tries_of_samples wfc bound nb_samples i (seed_of_sample wfc bound seed i) =
   concat (map (\<lambda>j. tries_of_sample wfc bound j 0 (seed_of_sample wfc bound seed j))
             [i..<nb_samples])"
proof (induction "nb_samples - i" arbitrary: i)
  case 0
  then show ?case by (subst tries_of_samples.simps) simp
next
  case (Suc d)
  then have lt: "i < nb_samples" and d: "d = nb_samples - Suc i" by simp_all
  from Suc.hyps(1) [OF d] lt show ?case
    by (subst tries_of_samples.simps) (simp add: upt_conv_Cons)
qed

lemma filter_concat_blocks:
  assumes "\<And>k e. e \<in> set (f k) \<Longrightarrow> g e = k"
  shows "filter (\<lambda>e. g e = j) (concat (map f [0..<n])) = (if j < n then f j else [])"
proof (induction n)
  case 0
  then show ?case by simp
next
  case (Suc n)
  have other: "k \<noteq> j \<Longrightarrow> filter (\<lambda>e. g e = j) (f k) = []" for k
    using assms by (auto simp: filter_empty_conv)
  have same: "filter (\<lambda>e. g e = j) (f j) = f j"
    using assms by (auto simp: filter_id_conv)
  show ?case
    using Suc other [of n] same by (auto simp: less_Suc_eq)
qed

lemma sample_tries_of_samples:
  "sample_tries (tries_of_samples wfc bound nb_samples 0 seed) j =
   (if j < nb_samples then tries_of_sample wfc bound j 0 (seed_of_sample wfc bound seed j) else [])"
proof -
  have "tries_of_samples wfc bound nb_samples 0 seed =
        concat (map (\<lambda>j. tries_of_sample wfc bound j 0 (seed_of_sample wfc bound seed j))
                  [0..<nb_samples])"
    using tries_of_samples_concat [of wfc bound nb_samples 0 seed] by simp
  then show ?thesis
    unfolding sample_tries_def
    by (simp add: filter_concat_blocks [where g = ev_sample, OF tries_of_sample_events [THEN conjunct1]])
qed

lemma pixels_concat: "pixels (concat (map f xs)) = concat (map (\<lambda>x. pixels (f x)) xs)"
  by (induction xs) simp_all

lemma pixels_tries_of_samples:
  "pixels (tries_of_samples wfc bound nb_samples 0 seed) =
   concat (map (\<lambda>j. pixels (sample_tries (tries_of_samples wfc bound nb_samples 0 seed) j))
             [0..<nb_samples])"
proof -
  have "tries_of_samples wfc bound nb_samples 0 seed =
        concat (map (\<lambda>j. tries_of_sample wfc bound j 0 (seed_of_sample wfc bound seed j))
                  [0..<nb_samples])"
    using tries_of_samples_concat [of wfc bound nb_samples 0 seed] by simp
  then have "pixels (tries_of_samples wfc bound nb_samples 0 seed) =
        concat (map (\<lambda>j. pixels (tries_of_sample wfc bound j 0 (seed_of_sample wfc bound seed j)))
                  [0..<nb_samples])"
    by (simp add: pixels_concat)
  also have "\<dots> = concat (map (\<lambda>j. pixels (sample_tries (tries_of_samples wfc bound nb_samples 0 seed) j))
             [0..<nb_samples])"
    by (rule arg_cong [where f = concat], rule map_cong) (simp_all add: sample_tries_of_samples)
  finally show ?thesis .
qed

text \<open>A sample has a successful try exactly when its last try succeeded.\<close>

lemma tries_of_sample_success:
  "(\<exists>e \<in> set (tries_of_sample wfc bound i test seed). succeeded e) \<longleftrightarrow>
   tries_of_sample wfc bound i test seed \<noteq> [] \<and>
   succeeded (last (tries_of_sample wfc bound i test seed))"
proof (cases "tries_of_sample wfc bound i test seed = []")
  case True
  then show ?thesis by simp
next
  case False
  then have "set (tries_of_sample wfc bound i test seed) =
      insert (last (tries_of_sample wfc bound i test seed))
        (set (butlast (tries_of_sample wfc bound i test seed)))"
    by (metis append_butlast_last_id list.simps(15) rotate1.simps(2) set_rotate1)
  with False tries_of_sample_butlast [of _ wfc bound i test seed] show ?thesis
    by auto
qed

lemma sample_loop_warnings:
  "failed \<noteq> warning \<Longrightarrow> (bound = 0 \<longrightarrow> \<not> generated (result s)) \<Longrightarrow>
   warnings (cout (sample_loop wfc failed verbose bound nb_samples i s)) =
   warnings (cout s) +
   length (filter (\<lambda>j. \<not> sample_succeeded (tries_of_samples wfc bound nb_samples i (cur_seed s)) j)
             [i..<nb_samples])"
proof (induction wfc failed verbose bound nb_samples i s rule: sample_loop.induct)
  case (1 wfc failed verbose bound nb_samples i s)
  show ?case
  proof (cases "i < nb_samples")
    case True
    define A where "A = tries_of_sample wfc bound i 0 (cur_seed s)"
    define s1 where "s1 = retry_loop wfc failed verbose bound i 0 False s"
    define s2 where "s2 = (if generated (result s1)
                  then s1\<lparr>cout := cout s1 @ say verbose ''Finished one sample!''\<rparr>
                  else s1\<lparr>cout := cout s1 @ [Text warning, Endl]\<rparr>)"
    define T' where "T' = tries_of_samples wfc bound nb_samples (i + 1) (cur_seed s2)"
    have seed2: "cur_seed s2 = seed_after A (cur_seed s)"
      by (simp add: s2_def s1_def A_def retry_loop_cur_seed)
    have T: "tries_of_samples wfc bound nb_samples i (cur_seed s) = A @ T'"
      using True by (subst tries_of_samples.simps) (simp add: A_def T'_def seed2)
    have res1: "result s1 = (if A = [] then result s else ev_result (last A))"
      by (simp add: s1_def A_def retry_loop_result)
    have A_empty: "A = [] \<longleftrightarrow> bound = 0"
      by (simp add: A_def tries_of_sample_Nil_iff)
    have gen: "generated (result s1) \<longleftrightarrow> (\<exists>e \<in> set A. succeeded e)"
    proof (cases "A = []")
      case True
      with A_empty "1.prems"(2) res1 show ?thesis by simp
    next
      case False
      with res1 tries_of_sample_success [of wfc bound i 0 "cur_seed s"] show ?thesis
        by (simp add: A_def succeeded_def)
    qed
    have inA: "ev_sample e = i" if "e \<in> set A" for e
      using that by (simp add: A_def tries_of_sample_events)
    have inT': "i < ev_sample e" if "e \<in> set T'" for e
      using tries_of_samples_events [of e wfc bound nb_samples "i + 1" "cur_seed s2"] that
      by (simp add: T'_def)
    have at_i: "sample_succeeded (A @ T') i \<longleftrightarrow> (\<exists>e \<in> set A. succeeded e)"
      using inA inT' by (auto simp: sample_succeeded_def sample_tries_def)
    have later: "filter (\<lambda>j. \<not> sample_succeeded (A @ T') j) [Suc i..<nb_samples] =
                 filter (\<lambda>j. \<not> sample_succeeded T' j) [Suc i..<nb_samples]"
      by (rule filter_cong) (use inA in \<open>auto simp: sample_succeeded_def sample_tries_def\<close>)
    have pre2: "bound = 0 \<longrightarrow> \<not> generated (result s2)"
      using "1.prems"(2) res1 A_empty by (simp add: s2_def)
    have w1: "warnings (cout s1) = warnings (cout s)"
      by (simp add: s1_def retry_loop_warnings [OF "1.prems"(1)])
    have w2: "warnings (cout s2) = warnings (cout s) + (if sample_succeeded (A @ T') i then 0 else 1)"
      using gen w1 by (simp add: s2_def at_i)
    have "warnings (cout (sample_loop wfc failed verbose bound nb_samples (i + 1) s2)) =
          warnings (cout s2) +
          length (filter (\<lambda>j. \<not> sample_succeeded T' j) [i + 1..<nb_samples])"
      using "1.IH" [OF True s1_def s2_def "1.prems"(1) pre2]
      by (simp add: T'_def)
    moreover have "sample_loop wfc failed verbose bound nb_samples i s =
          sample_loop wfc failed verbose bound nb_samples (i + 1) s2"
      using True by (subst sample_loop.simps) (simp add: Let_def s1_def s2_def)
    ultimately show ?thesis
      using True by (simp add: T upt_conv_Cons later w2)
  next
    case False
    then show ?thesis
      by (subst sample_loop.simps) simp
  qed
qed

section \<open>The two front-ends as runs of the sample loop\<close>

lemma tiles_loop_error:
  "tiles_loop pytiles next_id tiles_id tiles = Inl e \<Longrightarrow> \<exists>msg. e = Thrown msg"
proof (induction pytiles arbitrary: next_id tiles_id tiles)
  case Nil
  then show ?case by simp
next
  case (Cons p rest)
  show ?case
  proof (cases "pytile_to_tile p")
    case (Inl e')
    with Cons.prems pytile_to_tile_error [of p e'] show ?thesis by (simp add: Let_def)
  next
    case (Inr t)
    with Cons.prems Cons.IH show ?thesis by (simp add: Let_def)
  qed
qed

lemma noexcept_returned [simp]: "noexcept (returned s) = returned s"
  by (simp add: noexcept_def returned_def)

lemma read_simpletiled_instance_cases:
  "read_simpletiled_instance tiling_wfc seed width height nb_samples periodic_output verbose
     nb_tries pytiles neighbors =
   (case tiles_loop pytiles 0 Map.empty [] of
      Inl e \<Rightarrow> \<lparr>r_cout = say verbose ''Started!'', r_tries = [], r_outcome = Inl Terminated\<rparr>
    | Inr (tiles_id, tiles) \<Rightarrow>
        returned
          (sample_loop (tiling_wfc tiles (neighbors_loop tiles_id neighbors []) height width
                          periodic_output)
             ''Failed!'' verbose 10 (unat nb_samples) 0 (loop_start seed (say verbose ''Started!''))))"
proof (cases "tiles_loop pytiles 0 Map.empty ([] :: ('a, 'b) Tile list)")
  case (Inl e)
  with tiles_loop_error [OF Inl] show ?thesis
    by (auto simp: read_simpletiled_instance_def noexcept_def)
next
  case (Inr pr)
  then show ?thesis
    by (cases pr) (simp add: read_simpletiled_instance_def)
qed

lemma read_overlapping_instance_cases:
  "read_overlapping_instance overlapping_wfc seed width height periodic_output N periodic_input
     ground nb_samples symmetry input_img input_width input_height verbose nb_tries =
   (if input_width = 0 \<and> input_height = 0
    then thrown (say verbose ''Started!'') ''Error while loading the map to sample from.''
    else returned
      (sample_loop
        (overlapping_wfc (array2d_from_vector input_img input_width input_height)
           (OverlappingWFCOptions periodic_input periodic_output height width symmetry ground N))
        ''Failed to generate!'' verbose (unat nb_tries) (unat nb_samples) 0
        (loop_start seed (say verbose ''Started!''))))"
  by (simp add: read_overlapping_instance_def array2d_from_vector_def)

lemma returned_tries:
  "r_tries (returned (sample_loop wfc failed verbose bound nb_samples 0 (loop_start seed printed))) =
   tries_of_samples wfc bound nb_samples 0 seed"
  by (simp add: returned_def sample_loop_tries loop_start_def)

lemma returned_outcome:
  "r_outcome (returned (sample_loop wfc failed verbose bound nb_samples 0 (loop_start seed printed))) =
   Inr (pixels (tries_of_samples wfc bound nb_samples 0 seed))"
  by (simp add: returned_def sample_loop_results_vec loop_start_def)

lemma returned_warnings:
  "failed \<noteq> warning \<Longrightarrow>
   warnings (r_cout (returned (sample_loop wfc failed verbose bound nb_samples 0
      (loop_start seed printed)))) =
   warnings printed +
   length (filter (\<lambda>j. \<not> sample_succeeded (tries_of_samples wfc bound nb_samples 0 seed) j)
             [0..<nb_samples])"
  using sample_loop_warnings [of failed bound "loop_start seed printed" wfc verbose nb_samples 0]
  by (simp add: returned_def loop_start_def generated_def Array2D_0_0_def)

lemma warnings_elapsed_report [simp]: "warnings (elapsed_report start_time end_time) = 0"
  by (simp add: warnings_def elapsed_report_def Let_def warning_def)

lemma after_dispatch_tries [simp]: "r_tries (after_dispatch start_time end_time verbose r) = r_tries r"
  by (simp add: after_dispatch_def split: sum.splits)

lemma after_dispatch_outcome [simp]:
  "r_outcome (after_dispatch start_time end_time verbose r) = r_outcome r"
  by (simp add: after_dispatch_def split: sum.splits)

lemma after_dispatch_warnings [simp]:
  "warnings (r_cout (after_dispatch start_time end_time verbose r)) = warnings (r_cout r)"
  by (simp add: after_dispatch_def split: sum.splits)

lemma read_overlapping_instance_sampled:
  "\<not> (input_width = 0 \<and> input_height = 0) \<Longrightarrow>
   read_overlapping_instance overlapping_wfc seed width height periodic_output N periodic_input
     ground nb_samples symmetry input_img input_width input_height verbose nb_tries =
   returned
      (sample_loop
        (overlapping_wfc (array2d_from_vector input_img input_width input_height)
           (OverlappingWFCOptions periodic_input periodic_output height width symmetry ground N))
        ''Failed to generate!'' verbose (unat nb_tries) (unat nb_samples) 0
        (loop_start seed (say verbose ''Started!'')))"
  by (auto simp: read_overlapping_instance_cases)

text \<open>
  Every call is of one of two shapes: it is aborted before any engine is run, or it is a
  run of the sample loop over all samples, with the retry bound of its front-end.
\<close>

lemma run_wfc_cpp_shape:
  fixes overlapping_wfc :: "'c OverlappingWFC" and tiling_wfc :: "('c, 'w) TilingWFC"
  assumes R_def: "R = run_wfc_cpp overlapping_wfc tiling_wfc start_time end_time seed width height
     sample_type periodic_output N periodic_input ground nb_samples symmetry input_img
     input_width input_height verbose nb_tries tiles neighbors"
  obtains (aborted) e where "r_outcome R = Inl e" and "r_tries R = []"
  | (sampled) wfc bound where "sample_type = 0 \<or> sample_type = 1"
      and "sample_type = 0 \<Longrightarrow> bound = 10"
      and "sample_type = 1 \<Longrightarrow> bound = unat nb_tries"
      and "r_tries R = tries_of_samples wfc bound (unat nb_samples) 0 seed"
      and "r_outcome R = Inr (pixels (r_tries R))"
      and "warnings (r_cout R) =
           length (filter (\<lambda>j. \<not> sample_succeeded (r_tries R) j) [0..<unat nb_samples])"
proof (cases "sample_type = 0")
  case tiled: True
  show ?thesis
  proof (cases "tiles_loop tiles 0 Map.empty ([] :: ('c, 'w) Tile list)")
    case (Inl e)
    with tiled have "r_outcome R = Inl Terminated" "r_tries R = []"
      by (simp_all add: R_def run_wfc_cpp_def read_simpletiled_instance_cases)
    then show ?thesis by (rule aborted)
  next
    case (Inr pr)
    obtain tiles_id ts where pr: "pr = (tiles_id, ts)" by (cases pr)
    let ?wfc = "tiling_wfc ts (neighbors_loop tiles_id neighbors []) height width periodic_output"
    have t: "r_tries R = tries_of_samples ?wfc 10 (unat nb_samples) 0 seed"
      using tiled Inr pr
      by (simp add: R_def run_wfc_cpp_def read_simpletiled_instance_cases returned_tries)
    have o: "r_outcome R = Inr (pixels (r_tries R))"
      using tiled Inr pr
      by (simp add: R_def run_wfc_cpp_def read_simpletiled_instance_cases returned_tries
          returned_outcome)
    have w: "warnings (r_cout R) =
           length (filter (\<lambda>j. \<not> sample_succeeded (r_tries R) j) [0..<unat nb_samples])"
      using tiled Inr pr
      by (simp add: R_def run_wfc_cpp_def read_simpletiled_instance_cases returned_tries
          returned_warnings)
    from tiled t o w show ?thesis
      by (intro sampled [of 10 ?wfc]) simp_all
  qed
next
  case not_tiled: False
  show ?thesis
  proof (cases "sample_type = 1")
    case overlapping: True
    show ?thesis
    proof (cases "input_width = 0 \<and> input_height = 0")
      case True
      with overlapping
      have "r_outcome R = Inl (Thrown ''Error while loading the map to sample from.'')"
        "r_tries R = []"
        by (simp_all add: R_def run_wfc_cpp_def read_overlapping_instance_cases thrown_def)
      then show ?thesis by (rule aborted)
    next
      case False
      let ?wfc = "overlapping_wfc (array2d_from_vector input_img input_width input_height)
           (OverlappingWFCOptions periodic_input periodic_output height width symmetry ground N)"
      note sampled_eq = read_overlapping_instance_sampled [OF False]
      have t: "r_tries R = tries_of_samples ?wfc (unat nb_tries) (unat nb_samples) 0 seed"
        using overlapping
        by (simp add: R_def run_wfc_cpp_def sampled_eq returned_tries)
      have o: "r_outcome R = Inr (pixels (r_tries R))"
        using overlapping
        by (simp add: R_def run_wfc_cpp_def sampled_eq returned_tries returned_outcome)
      have w: "warnings (r_cout R) =
           length (filter (\<lambda>j. \<not> sample_succeeded (r_tries R) j) [0..<unat nb_samples])"
        using overlapping
        by (simp add: R_def run_wfc_cpp_def sampled_eq returned_tries returned_warnings)
      from overlapping t o w show ?thesis
        by (intro sampled [of "unat nb_tries" ?wfc]) simp_all
    qed
  next
    case False
    with not_tiled
    have "r_outcome R = Inl (Thrown ''choose 0 (simpletiled) or 1 (overlapping) on sample_type'')"
      "r_tries R = []"
      by (simp_all add: R_def run_wfc_cpp_def thrown_def)
    then show ?thesis by (rule aborted)
  qed
qed

lemma sample_tries_Nil [simp]: "sample_tries [] i = []"
  by (simp add: sample_tries_def)

lemma sample_tries_length:
  "length (sample_tries (tries_of_samples wfc bound nb_samples 0 seed) i) \<le> bound"
  using tries_of_sample_length [of wfc bound i 0]
  by (simp add: sample_tries_of_samples)

lemma sample_tries_butlast:
  "e \<in> set (butlast (sample_tries (tries_of_samples wfc bound nb_samples 0 seed) i)) \<Longrightarrow>
   \<not> succeeded e"
  using tries_of_sample_butlast [of e wfc bound i 0]
  by (simp add: sample_tries_of_samples split: if_splits)

lemma filter_find_last:
  "(\<And>e. e \<in> set (butlast A) \<Longrightarrow> \<not> P e) \<Longrightarrow>
   filter P A = (case find P A of None \<Rightarrow> [] | Some e \<Rightarrow> [e])"
proof (induction A)
  case Nil
  then show ?case by simp
next
  case (Cons x xs)
  show ?case
  proof (cases "xs = []")
    case True
    then show ?thesis by simp
  next
    case False
    with Cons.prems have "\<not> P x" and "\<And>e. e \<in> set (butlast xs) \<Longrightarrow> \<not> P e"
      by simp_all
    with Cons.IH show ?thesis by simp
  qed
qed

lemma pixels_sample_tries:
  "pixels (sample_tries (tries_of_samples wfc bound nb_samples 0 seed) i) =
   sample_pixels (tries_of_samples wfc bound nb_samples 0 seed) i"
  unfolding pixels_def sample_pixels_def
  by (subst filter_find_last [OF sample_tries_butlast]) (simp_all split: option.splits)

lemma pixels_by_sample:
  "pixels (tries_of_samples wfc bound nb_samples 0 seed) =
   concat (map (sample_pixels (tries_of_samples wfc bound nb_samples 0 seed)) [0..<nb_samples])"
  by (subst pixels_tries_of_samples) (simp add: pixels_sample_tries cong: map_cong)

section \<open>What the clock and the verbosity can reach\<close>


section \<open>Determinism of a call\<close>

text \<open>
  The statement below is not true of every engine: in two worlds that differ in the
  hidden state only, a call with the engine \<open>ex_leaky\<close> returns two different vectors.
\<close>

lemma hidden_state_can_reach_the_result:
  "r_outcome (run_wfc_cpp_in \<lparr>clock_start = 0, clock_end = 5, hidden = True\<rparr> ex_leaky
      (\<lambda>h. ex_tiling) 42 1 1 1 False 1 False False 1 1 [5] 1 1 False 1 [] []) = Inr [7] \<and>
   r_outcome (run_wfc_cpp_in \<lparr>clock_start = 0, clock_end = 5, hidden = False\<rparr> ex_leaky
      (\<lambda>h. ex_tiling) 42 1 1 1 False 1 False False 1 1 [5] 1 1 False 1 [] []) = Inr []"
  by code_simp


section \<open>The bounds of the retry loops\<close>

text \<open>
  Claim C3. The tiled path (\<open>sample_type = 0\<close>) makes at most 10 tries for each sample
  \<open>i\<close>, whatever \<open>nb_tries\<close> is (the tiled front-end does not read that argument at
  all); the overlapping path (\<open>sample_type = 1\<close>) makes at most \<open>nb_tries\<close> tries for
  each sample. On both paths the retry loop stops at the first try that succeeds: every
  try of a sample but its last one has failed.
\<close>

theorem retry_bounds:
  "(sample_type = 0 \<longrightarrow>
      length (sample_tries (r_tries (run_wfc_cpp overlapping_wfc tiling_wfc start_time end_time
        seed width height sample_type periodic_output N periodic_input ground nb_samples
        symmetry input_img input_width input_height verbose nb_tries tiles neighbors)) i) \<le> 10) \<and>
   (sample_type = 1 \<longrightarrow>
      length (sample_tries (r_tries (run_wfc_cpp overlapping_wfc tiling_wfc start_time end_time
        seed width height sample_type periodic_output N periodic_input ground nb_samples
        symmetry input_img input_width input_height verbose nb_tries tiles neighbors)) i)
      \<le> unat nb_tries) \<and>
   (\<forall>e \<in> set (butlast (sample_tries (r_tries (run_wfc_cpp overlapping_wfc tiling_wfc start_time
        end_time seed width height sample_type periodic_output N periodic_input ground
        nb_samples symmetry input_img input_width input_height verbose nb_tries tiles
        neighbors)) i)). \<not> succeeded e) \<and>
   read_simpletiled_instance tiling_wfc seed width height nb_samples periodic_output verbose
     nb_tries tiles neighbors =
   read_simpletiled_instance tiling_wfc seed width height nb_samples periodic_output verbose
     nb_tries' tiles neighbors"
proof -
  define R where "R = run_wfc_cpp overlapping_wfc tiling_wfc start_time end_time
        seed width height sample_type periodic_output N periodic_input ground nb_samples
        symmetry input_img input_width input_height verbose nb_tries tiles neighbors"
  have "(sample_type = 0 \<longrightarrow> length (sample_tries (r_tries R) i) \<le> 10) \<and>
        (sample_type = 1 \<longrightarrow> length (sample_tries (r_tries R) i) \<le> unat nb_tries) \<and>
        (\<forall>e \<in> set (butlast (sample_tries (r_tries R) i)). \<not> succeeded e)"
    using R_def
  proof (cases rule: run_wfc_cpp_shape)
    case (aborted e)
    then show ?thesis by simp
  next
    case (sampled wfc bound)
    from sampled(2,3,4) sample_tries_length [of wfc bound "unat nb_samples" seed i]
      sample_tries_butlast [of _ wfc bound "unat nb_samples" seed i]
    show ?thesis by auto
  qed
  moreover have "read_simpletiled_instance tiling_wfc seed width height nb_samples
       periodic_output verbose nb_tries tiles neighbors =
     read_simpletiled_instance tiling_wfc seed width height nb_samples periodic_output verbose
       nb_tries' tiles neighbors"
    by (simp add: read_simpletiled_instance_def)
  ultimately show ?thesis
    unfolding R_def by blast
qed

theorem retry_bounds_witness:
  "length (sample_tries (r_tries (run_wfc_cpp ex_overlapping ex_tiling 0 5 40 1 1 0 False 1
      False False 1 1 [] 0 0 False 2 [ex_tile ''A'' ''X''] [])) 0) \<le> 10 \<and>
   length (sample_tries (r_tries (run_wfc_cpp ex_overlapping ex_tiling 0 5 40 1 1 0 False 1
      False False 1 1 [] 0 0 False 2 [ex_tile ''A'' ''X''] [])) 0) = 5"
proof -
  have "length (sample_tries (r_tries (run_wfc_cpp ex_overlapping ex_tiling 0 5 40 1 1 0 False 1
      False False 1 1 [] 0 0 False 2 [ex_tile ''A'' ''X''] [])) 0) = 5"
    by code_simp
  moreover
  from retry_bounds [where sample_type = 0 and overlapping_wfc = ex_overlapping
      and tiling_wfc = ex_tiling and start_time = 0 and end_time = 5 and seed = 40
      and width = 1 and height = 1 and periodic_output = False and N = 1
      and periodic_input = False and ground = False and nb_samples = 1 and symmetry = 1
      and input_img = "[]" and input_width = 0 and input_height = 0 and verbose = False
      and nb_tries = 2 and tiles = "[ex_tile ''A'' ''X'']" and neighbors = "[]" and i = 0]
  have "length (sample_tries (r_tries (run_wfc_cpp ex_overlapping ex_tiling 0 5 40 1 1 0 False 1
      False False 1 1 [] 0 0 False 2 [ex_tile ''A'' ''X''] [])) 0) \<le> 10"
    by simp
  ultimately show ?thesis by simp
qed

section \<open>The returned vector and the warnings\<close>

lemma find_in_set: "find P xs = Some x \<Longrightarrow> x \<in> set xs \<and> P x"
  by (induction xs) (auto split: if_splits)

lemma sample_pixels_failed:
  "\<not> sample_succeeded T i \<Longrightarrow> sample_pixels T i = []"
  by (auto simp: sample_succeeded_def sample_pixels_def split: option.splits dest: find_in_set)

text \<open>
  Claim C4. When a call returns, the returned vector is the concatenation, in sample
  order, of what each sample contributes: the pixel data of its successful try, and
  nothing for a sample whose tries all failed. The number of warnings printed is the
  number of samples that failed.
\<close>

theorem output_is_concatenation:
  "r_outcome (run_wfc_cpp overlapping_wfc tiling_wfc start_time end_time seed width height
      sample_type periodic_output N periodic_input ground nb_samples symmetry input_img
      input_width input_height verbose nb_tries tiles neighbors) = Inr v \<longrightarrow>
   v = concat (map (sample_pixels (r_tries (run_wfc_cpp overlapping_wfc tiling_wfc start_time
         end_time seed width height sample_type periodic_output N periodic_input ground
         nb_samples symmetry input_img input_width input_height verbose nb_tries tiles
         neighbors))) [0..<unat nb_samples]) \<and>
   (\<forall>i. \<not> sample_succeeded (r_tries (run_wfc_cpp overlapping_wfc tiling_wfc start_time
         end_time seed width height sample_type periodic_output N periodic_input ground
         nb_samples symmetry input_img input_width input_height verbose nb_tries tiles
         neighbors)) i \<longrightarrow>
        sample_pixels (r_tries (run_wfc_cpp overlapping_wfc tiling_wfc start_time
         end_time seed width height sample_type periodic_output N periodic_input ground
         nb_samples symmetry input_img input_width input_height verbose nb_tries tiles
         neighbors)) i = []) \<and>
   warnings (r_cout (run_wfc_cpp overlapping_wfc tiling_wfc start_time end_time seed width
      height sample_type periodic_output N periodic_input ground nb_samples symmetry input_img
      input_width input_height verbose nb_tries tiles neighbors)) =
   length (filter (\<lambda>i. \<not> sample_succeeded (r_tries (run_wfc_cpp overlapping_wfc tiling_wfc
         start_time end_time seed width height sample_type periodic_output N periodic_input
         ground nb_samples symmetry input_img input_width input_height verbose nb_tries tiles
         neighbors)) i) [0..<unat nb_samples])"
proof -
  define R where "R = run_wfc_cpp overlapping_wfc tiling_wfc start_time end_time
        seed width height sample_type periodic_output N periodic_input ground nb_samples
        symmetry input_img input_width input_height verbose nb_tries tiles neighbors"
  have "r_outcome R = Inr v \<longrightarrow>
        v = concat (map (sample_pixels (r_tries R)) [0..<unat nb_samples]) \<and>
        (\<forall>i. \<not> sample_succeeded (r_tries R) i \<longrightarrow> sample_pixels (r_tries R) i = []) \<and>
        warnings (r_cout R) =
        length (filter (\<lambda>i. \<not> sample_succeeded (r_tries R) i) [0..<unat nb_samples])"
    using R_def
  proof (cases rule: run_wfc_cpp_shape)
    case (aborted e)
    then show ?thesis by simp
  next
    case (sampled wfc bound)
    from sampled(4,5) pixels_by_sample [of wfc bound "unat nb_samples" seed]
    have "r_outcome R = Inr (concat (map (sample_pixels (r_tries R)) [0..<unat nb_samples]))"
      by simp
    with sampled(6) show ?thesis
      by (auto simp: sample_pixels_failed)
  qed
  then show ?thesis
    unfolding R_def .
qed

theorem output_is_concatenation_witness:
  "r_outcome (run_wfc_cpp ex_overlapping ex_tiling 0 5 42 1 1 1 False 1 False False 3 1 [5] 1 1
      True 2 [] []) = Inr [7, 7] \<and>
   [7, 7] = concat (map (sample_pixels (r_tries (run_wfc_cpp ex_overlapping ex_tiling 0 5 42 1 1
      1 False 1 False False 3 1 [5] 1 1 True 2 [] []))) [0..<unat (3 :: u32)]) \<and>
   warnings (r_cout (run_wfc_cpp ex_overlapping ex_tiling 0 5 42 1 1 1 False 1 False False 3 1
      [5] 1 1 True 2 [] [])) = 1"
proof -
  have h: "r_outcome (run_wfc_cpp ex_overlapping ex_tiling 0 5 42 1 1 1 False 1 False False 3 1
      [5] 1 1 True 2 [] []) = Inr [7, 7]"
    by code_simp
  have w: "warnings (r_cout (run_wfc_cpp ex_overlapping ex_tiling 0 5 42 1 1 1 False 1 False
      False 3 1 [5] 1 1 True 2 [] [])) = 1"
    by code_simp
  from output_is_concatenation [THEN mp, OF h] h w show ?thesis
    by blast
qed

section \<open>The cycle of the seed increment\<close>

lemma unat_increment_seed:
  "unat (increment_seed s) = (if unat s < 4294967294 then unat s + 1 else 0)"
proof (cases "s < unsigned_max - 1")
  case True
  then have lt: "unat s < 4294967294"
    by (simp add: unsigned_max_def word_less_nat_alt)
  then have "unat (s + 1) = unat s + 1"
    by (simp add: unat_word_ariths)
  with True lt show ?thesis by (simp add: increment_seed_def)
next
  case False
  then have "\<not> unat s < 4294967294"
    by (simp add: unsigned_max_def word_less_nat_alt)
  with False show ?thesis by (simp add: increment_seed_def)
qed

lemma unat_below_2_32: "unat (s :: u32) < 4294967296"
  using unsigned_less [of s, where 'a = nat] by simp

lemma increment_seed_eq_iff:
  "increment_seed s = s + 1 \<longleftrightarrow> s \<noteq> 4294967294"
proof -
  have plus: "unat (s + 1) = (unat s + 1) mod 4294967296"
    by (simp add: unat_word_ariths)
  have num: "unat (4294967294 :: u32) = 4294967294"
    by simp
  have "s = 4294967294 \<longleftrightarrow> unat s = 4294967294"
    unfolding word_unat_eq_iff num ..
  moreover have "increment_seed s = s + 1 \<longleftrightarrow> unat (increment_seed s) = unat (s + 1)"
    by (simp add: word_unat_eq_iff)
  moreover have "unat (increment_seed s) = unat (s + 1) \<longleftrightarrow> unat s \<noteq> 4294967294"
  proof (cases "unat s < 4294967294")
    case True
    then show ?thesis by (simp add: unat_increment_seed plus)
  next
    case False
    with unat_below_2_32 [of s] have "unat s = 4294967294 \<or> unat s = 4294967295"
      by linarith
    then show ?thesis
      by (auto simp: unat_increment_seed plus)
  qed
  ultimately show ?thesis by simp
qed

lemma funpow_increment_seed:
  "unat s < 4294967295 \<Longrightarrow>
   unat ((increment_seed ^^ k) s) = (unat s + k) mod 4294967295"
proof (induction k)
  case 0
  then show ?case by simp
next
  case (Suc k)
  let ?x = "(increment_seed ^^ k) s"
  from Suc have x: "unat ?x = (unat s + k) mod 4294967295" by simp
  then have "unat ?x < 4294967295" by simp
  then have "unat ?x < 4294967294 \<or> unat ?x = 4294967294" by linarith
  then have "unat (increment_seed ?x) = (unat ?x + 1) mod 4294967295"
    by (auto simp: unat_increment_seed)
  also have "\<dots> = (unat s + Suc k) mod 4294967295"
    by (simp add: x mod_Suc_eq)
  finally show ?case by simp
qed

lemma increment_seed_below_max: "unat (increment_seed s) < 4294967295"
  by (simp add: unat_increment_seed)

text \<open>Fewer than \<open>2^32 - 1\<close> increments never lead back to the seed they started from.\<close>

lemma increment_seed_no_return:
  assumes "0 < k" and "k < 4294967295"
  shows "(increment_seed ^^ k) s \<noteq> s"
proof (cases "unat s < 4294967295")
  case True
  have "(unat s + k) mod 4294967295 \<noteq> unat s"
  proof (cases "unat s + k < 4294967295")
    case True
    with assms show ?thesis by simp
  next
    case False
    then have "(unat s + k) mod 4294967295 = (unat s + k - 4294967295) mod 4294967295"
      by (simp add: le_mod_geq)
    also have "\<dots> = unat s + k - 4294967295"
      using True assms by simp
    finally show ?thesis
      using assms False by linarith
  qed
  with funpow_increment_seed [OF True, of k] show ?thesis by auto
next
  case False
  from assms obtain k' where k: "k = Suc k'" by (cases k) auto
  have "unat ((increment_seed ^^ k) s) < 4294967295"
    by (simp add: k increment_seed_below_max)
  with False show ?thesis by auto
qed

section \<open>The seed from one sample to the next\<close>

lemma tries_of_sample_hd:
  assumes "0 < bound"
  shows "ev_test (hd (tries_of_sample wfc bound i 0 seed)) = 0"
    and "ev_seed (hd (tries_of_sample wfc bound i 0 seed)) = seed"
proof -
  from assms have ne: "tries_of_sample wfc bound i 0 seed \<noteq> []"
    by (simp add: tries_of_sample_Nil_iff)
  then have "0 < length (tries_of_sample wfc bound i 0 seed)" by simp
  from tries_of_sample_nth [OF this] ne
  show "ev_test (hd (tries_of_sample wfc bound i 0 seed)) = 0"
    and "ev_seed (hd (tries_of_sample wfc bound i 0 seed)) = seed"
    by (simp_all add: hd_conv_nth)
qed

lemma tries_of_sample_last:
  assumes "0 < bound"
  shows "ev_seed (last (tries_of_sample wfc bound i 0 seed)) =
         (increment_seed ^^ (length (tries_of_sample wfc bound i 0 seed) - 1)) seed"
proof -
  from assms have ne: "tries_of_sample wfc bound i 0 seed \<noteq> []"
    by (simp add: tries_of_sample_Nil_iff)
  then have "length (tries_of_sample wfc bound i 0 seed) - 1 <
      length (tries_of_sample wfc bound i 0 seed)" by simp
  from tries_of_sample_nth [OF this] ne show ?thesis
    by (simp add: last_conv_nth)
qed

text \<open>A sample makes a single try exactly when its first try succeeds or the bound is 1.\<close>

lemma tries_of_sample_single:
  assumes "0 < bound"
  shows "length (tries_of_sample wfc bound i 0 seed) = 1 \<longleftrightarrow>
         succeeded (hd (tries_of_sample wfc bound i 0 seed)) \<or> bound = 1"
proof
  assume one: "length (tries_of_sample wfc bound i 0 seed) = 1"
  show "succeeded (hd (tries_of_sample wfc bound i 0 seed)) \<or> bound = 1"
  proof (cases "bound = 1")
    case True
    then show ?thesis by simp
  next
    case False
    with assms one have "length (tries_of_sample wfc bound i 0 seed) < bound - 0" by simp
    from tries_of_sample_short [OF this] one show ?thesis
      by (cases "tries_of_sample wfc bound i 0 seed") simp_all
  qed
next
  assume "succeeded (hd (tries_of_sample wfc bound i 0 seed)) \<or> bound = 1"
  then show "length (tries_of_sample wfc bound i 0 seed) = 1"
  proof
    assume s: "succeeded (hd (tries_of_sample wfc bound i 0 seed))"
    show ?thesis
    proof (cases "generated (wfc seed)")
      case True
      with assms show ?thesis
        by (subst tries_of_sample.simps) (simp add: Let_def)
    next
      case False
      with assms s show ?thesis
        by (subst (asm) tries_of_sample.simps) (simp add: Let_def succeeded_def)
    qed
  next
    assume "bound = 1"
    with tries_of_sample_length [of wfc bound i 0 seed]
      tries_of_sample_Nil_iff [of wfc bound i 0 seed]
    show ?thesis by (cases "tries_of_sample wfc bound i 0 seed") simp_all
  qed
qed

lemma sample_tries_first:
  assumes "sample_tries (tries_of_samples wfc bound nb_samples 0 seed) 0 \<noteq> []"
  shows "ev_test (hd (sample_tries (tries_of_samples wfc bound nb_samples 0 seed) 0)) = 0 \<and>
         ev_seed (hd (sample_tries (tries_of_samples wfc bound nb_samples 0 seed) 0)) = seed"
proof -
  from assms have "0 < nb_samples" and "0 < bound"
    by (auto simp: sample_tries_of_samples tries_of_sample_Nil_iff split: if_splits)
  then show ?thesis
    by (simp add: sample_tries_of_samples tries_of_sample_hd)
qed

lemma sample_tries_next:
  fixes wfc :: "u32 \<Rightarrow> 'c Array2D" and bound nb_samples :: nat and seed :: u32
  defines "B \<equiv> sample_tries (tries_of_samples wfc bound nb_samples 0 seed)"
  assumes ne: "B (Suc i) \<noteq> []" and bound: "bound < 4294967296"
  shows "B i \<noteq> []"
    and "ev_test (hd (B (Suc i))) = 0"
    and "ev_seed (hd (B (Suc i))) = ev_seed (last (B i))"
    and "ev_seed (hd (B (Suc i))) = ev_seed (hd (B i)) \<longleftrightarrow> length (B i) = 1"
    and "length (B i) = 1 \<longleftrightarrow> succeeded (hd (B i)) \<or> bound = 1"
proof -
  let ?s = "seed_of_sample wfc bound seed"
  let ?A = "\<lambda>j. tries_of_sample wfc bound j 0 (?s j)"
  from ne have lt: "Suc i < nb_samples" and pos: "0 < bound"
    by (auto simp: B_def sample_tries_of_samples tries_of_sample_Nil_iff split: if_splits)
  have B1: "B (Suc i) = ?A (Suc i)" and B0: "B i = ?A i"
    using lt by (simp_all add: B_def sample_tries_of_samples)
  have A0: "?A i \<noteq> []"
    using pos by (simp add: tries_of_sample_Nil_iff)
  then show "B i \<noteq> []" by (simp add: B0)
  show "ev_test (hd (B (Suc i))) = 0"
    by (simp add: B1 tries_of_sample_hd [OF pos])
  have next_seed: "?s (Suc i) = ev_seed (last (?A i))"
    using A0 by (simp add: seed_after_def)
  have hd1: "ev_seed (hd (B (Suc i))) = ev_seed (last (B i))"
    unfolding B1 B0 tries_of_sample_hd(2) [OF pos] next_seed ..
  then show "ev_seed (hd (B (Suc i))) = ev_seed (last (B i))" .
  have len: "length (?A i) \<le> bound"
    using tries_of_sample_length [of wfc bound i 0 "?s i"] by simp
  have last0: "ev_seed (last (B i)) = (increment_seed ^^ (length (B i) - 1)) (?s i)"
    by (simp add: B0 tries_of_sample_last [OF pos])
  have hd0: "ev_seed (hd (B i)) = ?s i"
    by (simp add: B0 tries_of_sample_hd [OF pos])
  show "ev_seed (hd (B (Suc i))) = ev_seed (hd (B i)) \<longleftrightarrow> length (B i) = 1"
  proof (cases "length (B i) = 1")
    case True
    then show ?thesis by (simp add: hd1 last0 hd0)
  next
    case False
    with A0 have "0 < length (B i) - 1" by (simp add: B0 Suc_lessI)
    moreover from len bound have "length (B i) - 1 < 4294967295"
      using A0 by (simp add: B0)
    ultimately have "(increment_seed ^^ (length (B i) - 1)) (?s i) \<noteq> ?s i"
      by (rule increment_seed_no_return)
    with False show ?thesis by (simp add: hd1 last0 hd0)
  qed
  show "length (B i) = 1 \<longleftrightarrow> succeeded (hd (B i)) \<or> bound = 1"
    unfolding B0 by (rule tries_of_sample_single [OF pos])
qed

text \<open>
  Claim C9, as stated, fails in its last part. With \<open>nb_tries = 1\<close> the overlapping
  front-end makes one try per sample and never increments the seed: when the only try of
  sample 0 fails at seed 7, sample 1 still starts at the input seed 7.
\<close>

theorem seed_reused_after_failed_sample:
  "r_tries (run_wfc_cpp ex_overlapping ex_tiling 0 5 7 1 1 1 False 1 False False 2 1 [5] 1 1
      False 1 [] []) =
     [\<lparr>ev_sample = 0, ev_test = 0, ev_seed = 7,
       ev_result = \<lparr>arr_height = 0, arr_width = 0, arr_data = []\<rparr>\<rparr>,
      \<lparr>ev_sample = 1, ev_test = 0, ev_seed = 7,
       ev_result = \<lparr>arr_height = 0, arr_width = 0, arr_data = []\<rparr>\<rparr>] \<and>
   \<not> succeeded \<lparr>ev_sample = 0, ev_test = 0, ev_seed = 7,
       ev_result = \<lparr>arr_height = 0, arr_width = 0, arr_data = ([] :: nat list)\<rparr>\<rparr>"
  by code_simp

text \<open>
  Claim C9, amended. The seed variable is not reset between samples. The first try of
  sample 0 uses the input seed. Whenever sample \<open>i + 1\<close> makes a try, sample \<open>i\<close> has
  made one too, and the first try of sample \<open>i + 1\<close> uses the seed of the last try of
  sample \<open>i\<close>. That seed is the seed of the first try of sample \<open>i\<close> exactly when sample
  \<open>i\<close> made a single try, so that no increment took place: when its first try succeeded,
  or when the call is an overlapping one with \<open>nb_tries = 1\<close>.
\<close>

theorem seed_carried_over:
  fixes overlapping_wfc :: "'c OverlappingWFC" and tiling_wfc :: "('c, 'w) TilingWFC"
    and start_time end_time sample_type :: int
    and seed width height N nb_samples symmetry input_width input_height nb_tries :: u32
    and periodic_output periodic_input ground verbose :: bool
    and input_img :: "'c list" and tiles :: "('c, 'w) PyTile list"
    and neighbors :: "Neighbor list"
  defines "T \<equiv> r_tries (run_wfc_cpp overlapping_wfc tiling_wfc start_time end_time seed width
      height sample_type periodic_output N periodic_input ground nb_samples symmetry input_img
      input_width input_height verbose nb_tries tiles neighbors)"
  shows "(sample_tries T 0 \<noteq> [] \<longrightarrow>
            ev_test (hd (sample_tries T 0)) = 0 \<and> ev_seed (hd (sample_tries T 0)) = seed) \<and>
         (sample_tries T (Suc i) \<noteq> [] \<longrightarrow>
            sample_tries T i \<noteq> [] \<and>
            ev_test (hd (sample_tries T (Suc i))) = 0 \<and>
            ev_seed (hd (sample_tries T (Suc i))) = ev_seed (last (sample_tries T i)) \<and>
            (ev_seed (hd (sample_tries T (Suc i))) = ev_seed (hd (sample_tries T i)) \<longleftrightarrow>
               length (sample_tries T i) = 1) \<and>
            (length (sample_tries T i) = 1 \<longleftrightarrow>
               succeeded (hd (sample_tries T i)) \<or> sample_type = 1 \<and> nb_tries = 1))"
proof -
  define R where "R = run_wfc_cpp overlapping_wfc tiling_wfc start_time end_time seed width
      height sample_type periodic_output N periodic_input ground nb_samples symmetry input_img
      input_width input_height verbose nb_tries tiles neighbors"
  have T: "T = r_tries R" by (simp add: T_def R_def)
  from R_def show ?thesis
  proof (cases rule: run_wfc_cpp_shape)
    case (aborted e)
    then show ?thesis by (simp add: T)
  next
    case (sampled wfc bound)
    have T': "T = tries_of_samples wfc bound (unat nb_samples) 0 seed"
      using sampled(4) by (simp add: T)
    have "unat nb_tries < 4294967296" by (rule unat_below_2_32)
    with sampled(1-3) have bound: "bound < 4294967296" by auto
    have "unat nb_tries = 1 \<longleftrightarrow> nb_tries = 1"
      using word_unat_eq_iff [of nb_tries 1] by simp
    with sampled(1-3) have one: "bound = 1 \<longleftrightarrow> sample_type = 1 \<and> nb_tries = 1"
      by auto
    have first: "ev_test (hd (sample_tries T 0)) = 0 \<and> ev_seed (hd (sample_tries T 0)) = seed"
      if "sample_tries T 0 \<noteq> []"
      using that unfolding T' by (rule sample_tries_first)
    have "sample_tries T i \<noteq> [] \<and>
          ev_test (hd (sample_tries T (Suc i))) = 0 \<and>
          ev_seed (hd (sample_tries T (Suc i))) = ev_seed (last (sample_tries T i)) \<and>
          (ev_seed (hd (sample_tries T (Suc i))) = ev_seed (hd (sample_tries T i)) \<longleftrightarrow>
             length (sample_tries T i) = 1) \<and>
          (length (sample_tries T i) = 1 \<longleftrightarrow>
             succeeded (hd (sample_tries T i)) \<or> sample_type = 1 \<and> nb_tries = 1)"
      if ne: "sample_tries T (Suc i) \<noteq> []"
      using sample_tries_next [of wfc bound "unat nb_samples" seed i, OF ne [unfolded T'] bound]
      unfolding T' one by blast
    with first show ?thesis by blast
  qed
qed

theorem seed_carried_over_witness:
  "sample_tries (r_tries (run_wfc_cpp ex_overlapping ex_tiling 0 5 42 1 1 1 False 1 False False
      3 1 [5] 1 1 True 2 [] [])) (Suc 0) \<noteq> [] \<and>
   ev_seed (hd (sample_tries (r_tries (run_wfc_cpp ex_overlapping ex_tiling 0 5 42 1 1 1 False 1
      False False 3 1 [5] 1 1 True 2 [] [])) (Suc 0))) =
   ev_seed (last (sample_tries (r_tries (run_wfc_cpp ex_overlapping ex_tiling 0 5 42 1 1 1 False
      1 False False 3 1 [5] 1 1 True 2 [] [])) 0)) \<and>
   ev_seed (hd (sample_tries (r_tries (run_wfc_cpp ex_overlapping ex_tiling 0 5 42 1 1 1 False 1
      False False 3 1 [5] 1 1 True 2 [] [])) (Suc 0))) = 43"
proof -
  have ne: "sample_tries (r_tries (run_wfc_cpp ex_overlapping ex_tiling 0 5 42 1 1 1 False 1
      False False 3 1 [5] 1 1 True 2 [] [])) (Suc 0) \<noteq> []"
    by code_simp
  have v: "ev_seed (hd (sample_tries (r_tries (run_wfc_cpp ex_overlapping ex_tiling 0 5 42 1 1 1
      False 1 False False 3 1 [5] 1 1 True 2 [] [])) (Suc 0))) = 43"
    by code_simp
  from seed_carried_over [THEN conjunct2, THEN mp, OF ne] ne v show ?thesis
    by blast
qed

section \<open>The rules handed to the tiling engine\<close>

lemma tries_of_samples_results:
  "e \<in> set (tries_of_samples wfc bound nb_samples i seed) \<Longrightarrow> ev_result e = wfc (ev_seed e)"
proof (induction wfc bound nb_samples i seed rule: tries_of_samples.induct)
  case (1 wfc bound nb_samples i seed)
  show ?case
  proof (cases "i < nb_samples")
    case True
    from "1.prems" True
    have "e \<in> set (tries_of_sample wfc bound i 0 seed) \<or>
          e \<in> set (tries_of_samples wfc bound nb_samples (i + 1)
                     (seed_after (tries_of_sample wfc bound i 0 seed) seed))"
      by (subst (asm) tries_of_samples.simps) simp
    then show ?thesis
    proof
      assume "e \<in> set (tries_of_sample wfc bound i 0 seed)"
      from tries_of_sample_events [OF this] show ?thesis by simp
    next
      assume "e \<in> set (tries_of_samples wfc bound nb_samples (i + 1)
                     (seed_after (tries_of_sample wfc bound i 0 seed) seed))"
      from "1.IH" [OF True this] show ?thesis .
    qed
  next
    case False
    with "1.prems" show ?thesis by (subst (asm) tries_of_samples.simps) simp
  qed
qed

text \<open>
  Claim C6. In tiled mode a neighbor entry whose left or right name is not the name of a
  supplied tile is dropped silently. When the tiles are accepted, the rules the loop over
  the entries collects are the known entries, in their order, each with its two names
  replaced by tile ids and its two orientations unchanged; the front-end raises nothing
  and is the sample loop run with the engine constructed from exactly these rules, so
  that the result of every try is an engine run on them. And the call is in every respect
  (output, tries, outcome) the call without the unknown entries.
\<close>

theorem unknown_neighbors_dropped:
  "(tiles_loop pytiles 0 Map.empty [] = Inr (tiles_id, tiles) \<longrightarrow>
      neighbors_loop tiles_id neighbors [] =
        map (to_ids pytiles) (filter (known pytiles) neighbors) \<and>
      read_simpletiled_instance tiling_wfc seed width height nb_samples periodic_output verbose
        nb_tries pytiles neighbors =
      returned
        (sample_loop
           (tiling_wfc tiles (map (to_ids pytiles) (filter (known pytiles) neighbors))
              height width periodic_output)
           ''Failed!'' verbose 10 (unat nb_samples) 0 (loop_start seed (say verbose ''Started!''))) \<and>
      (\<forall>e \<in> set (r_tries (read_simpletiled_instance tiling_wfc seed width height nb_samples
                       periodic_output verbose nb_tries pytiles neighbors)).
         ev_result e =
         tiling_wfc tiles (map (to_ids pytiles) (filter (known pytiles) neighbors))
           height width periodic_output (ev_seed e))) \<and>
   read_simpletiled_instance tiling_wfc seed width height nb_samples periodic_output verbose
     nb_tries pytiles neighbors =
   read_simpletiled_instance tiling_wfc seed width height nb_samples periodic_output verbose
     nb_tries pytiles (filter (known pytiles) neighbors)"
proof (intro conjI impI)
  assume ok: "tiles_loop pytiles 0 Map.empty [] = Inr (tiles_id, tiles)"
  then show ids: "neighbors_loop tiles_id neighbors [] =
      map (to_ids pytiles) (filter (known pytiles) neighbors)"
    by (rule neighbors_loop_known)
  from ok ids
  show run: "read_simpletiled_instance tiling_wfc seed width height nb_samples periodic_output
        verbose nb_tries pytiles neighbors =
      returned
        (sample_loop
           (tiling_wfc tiles (map (to_ids pytiles) (filter (known pytiles) neighbors))
              height width periodic_output)
           ''Failed!'' verbose 10 (unat nb_samples) 0 (loop_start seed (say verbose ''Started!'')))"
    by (simp add: read_simpletiled_instance_cases)
  show "\<forall>e \<in> set (r_tries (read_simpletiled_instance tiling_wfc seed width height nb_samples
                       periodic_output verbose nb_tries pytiles neighbors)).
         ev_result e =
         tiling_wfc tiles (map (to_ids pytiles) (filter (known pytiles) neighbors))
           height width periodic_output (ev_seed e)"
    unfolding run returned_tries
    by (blast dest: tries_of_samples_results)
next
  show "read_simpletiled_instance tiling_wfc seed width height nb_samples periodic_output verbose
     nb_tries pytiles neighbors =
   read_simpletiled_instance tiling_wfc seed width height nb_samples periodic_output verbose
     nb_tries pytiles (filter (known pytiles) neighbors)"
  proof (cases "tiles_loop pytiles 0 Map.empty ([] :: ('a, 'b) Tile list)")
    case (Inl e)
    then show ?thesis by (simp add: read_simpletiled_instance_def)
  next
    case (Inr pr)
    obtain tiles_id tiles where pr: "pr = (tiles_id, tiles)" by (cases pr)
    have "neighbors_loop tiles_id (filter (known pytiles) neighbors) [] =
          neighbors_loop tiles_id neighbors []"
      using Inr by (simp add: pr neighbors_loop_known)
    with Inr pr show ?thesis by (simp add: read_simpletiled_instance_def)
  qed
qed

theorem unknown_neighbors_dropped_witness:
  "tiles_loop [ex_tile ''A'' ''X'', ex_tile ''B'' ''T''] 0 Map.empty [] =
     Inr ([''A'' \<mapsto> 0, ''B'' \<mapsto> 1],
          [\<lparr>tile_image = \<lparr>arr_height = 1, arr_width = 1, arr_data = [0]\<rparr>,
            tile_symmetry = Symmetry_X, tile_weight = ()\<rparr>,
           \<lparr>tile_image = \<lparr>arr_height = 1, arr_width = 1, arr_data = [0]\<rparr>,
            tile_symmetry = Symmetry_T, tile_weight = ()\<rparr>]) \<and>
   neighbors_loop [''A'' \<mapsto> 0, ''B'' \<mapsto> 1] ex_neighbors [] = [(0, 0, 1, 1), (1, 2, 0, 3)] \<and>
   read_simpletiled_instance ex_tiling 43 1 1 1 False False 10
     [ex_tile ''A'' ''X'', ex_tile ''B'' ''T''] ex_neighbors =
   \<lparr>r_cout = [],
    r_tries =
      [\<lparr>ev_sample = 0, ev_test = 0, ev_seed = 43,
        ev_result = \<lparr>arr_height = 0, arr_width = 0, arr_data = []\<rparr>\<rparr>,
       \<lparr>ev_sample = 0, ev_test = 1, ev_seed = 44,
        ev_result = \<lparr>arr_height = 1, arr_width = 1, arr_data = [0, 1]\<rparr>\<rparr>],
    r_outcome = Inr [0, 1]\<rparr>"
proof -
  have h: "tiles_loop [ex_tile ''A'' ''X'', ex_tile ''B'' ''T''] 0 Map.empty [] =
     Inr ([''A'' \<mapsto> 0, ''B'' \<mapsto> 1],
          [\<lparr>tile_image = \<lparr>arr_height = 1, arr_width = 1, arr_data = [0]\<rparr>,
            tile_symmetry = Symmetry_X, tile_weight = ()\<rparr>,
           \<lparr>tile_image = \<lparr>arr_height = 1, arr_width = 1, arr_data = [0]\<rparr>,
            tile_symmetry = Symmetry_T, tile_weight = ()\<rparr>])"
    by (simp add: ex_tile_def pytile_to_tile_def to_symmetry_def array2d_from_vector_def)
  note dropped = unknown_neighbors_dropped [THEN conjunct1, THEN mp, OF h,
      of ex_neighbors ex_tiling 43 1 1 1 False False 10]
  have translated: "map (to_ids [ex_tile ''A'' ''X'', ex_tile ''B'' ''T''])
      (filter (known [ex_tile ''A'' ''X'', ex_tile ''B'' ''T'']) ex_neighbors) =
      [(0, 0, 1, 1), (1, 2, 0, 3)]"
    by (simp add: ex_neighbors_def known_def to_ids_def tile_id_def ex_tile_def)
  from dropped [THEN conjunct1]
  have a: "neighbors_loop [''A'' \<mapsto> 0, ''B'' \<mapsto> 1] ex_neighbors [] = [(0, 0, 1, 1), (1, 2, 0, 3)]"
    by (simp only: translated)
  from dropped [THEN conjunct2, THEN conjunct1]
  have b: "read_simpletiled_instance ex_tiling 43 1 1 1 False False 10
     [ex_tile ''A'' ''X'', ex_tile ''B'' ''T''] ex_neighbors =
   \<lparr>r_cout = [],
    r_tries =
      [\<lparr>ev_sample = 0, ev_test = 0, ev_seed = 43,
        ev_result = \<lparr>arr_height = 0, arr_width = 0, arr_data = []\<rparr>\<rparr>,
       \<lparr>ev_sample = 0, ev_test = 1, ev_seed = 44,
        ev_result = \<lparr>arr_height = 1, arr_width = 1, arr_data = [0, 1]\<rparr>\<rparr>],
    r_outcome = Inr [0, 1]\<rparr>"
    by (simp add: translated returned_def loop_start_def say_def generated_def ex_tiling_def
        Array2D_0_0_def increment_seed_def unsigned_max_def Let_def
        retry_loop.simps sample_loop.simps)
  from h a b show ?thesis by simp
qed

end
